theory Spec2Isabelle
  imports Main "HOL-Library.Multiset" "HOL-Library.Word"
begin

section \<open>Go library functions used by the program\<close>

text \<open>
  Go strings are byte sequences; they are modelled as \<open>string\<close> (a list of bytes).
  The separators the program looks for (\<open>/\<close> and \<open>-\<close>) are ASCII, so splitting on
  bytes and splitting on runes agree.
\<close>

text \<open>
  \<open>strings.FieldsFunc(s, f)\<close>: the maximal runs of characters not satisfying \<open>f\<close>;
  no field is ever empty. The second argument of the auxiliary function is the field
  being read.
\<close>

fun FieldsFunc_from :: "(char \<Rightarrow> bool) \<Rightarrow> string \<Rightarrow> string \<Rightarrow> string list" where
  "FieldsFunc_from f cur [] = (if cur = [] then [] else [cur])"
| "FieldsFunc_from f cur (c # cs) =
     (if f c then (if cur = [] then FieldsFunc_from f [] cs else cur # FieldsFunc_from f [] cs)
      else FieldsFunc_from f (cur @ [c]) cs)"

definition FieldsFunc :: "string \<Rightarrow> (char \<Rightarrow> bool) \<Rightarrow> string list" where
  "FieldsFunc s f = FieldsFunc_from f [] s"

text \<open>
  \<open>path.Clean\<close> and \<open>path.Join\<close>, on path components: \<open>components\<close> cuts a path at
  every slash, \<open>clean_components\<close> drops empty and \<open>.\<close> components and resolves
  \<open>..\<close> against the components kept so far (the list \<open>out\<close>, most recent last).
\<close>

fun components_from :: "string \<Rightarrow> string \<Rightarrow> string list" where
  "components_from cur [] = [cur]"
| "components_from cur (c # cs) =
     (if c = CHR ''/'' then cur # components_from [] cs else components_from (cur @ [c]) cs)"

definition components :: "string \<Rightarrow> string list" where
  "components p = components_from [] p"

fun clean_components :: "bool \<Rightarrow> string list \<Rightarrow> string list \<Rightarrow> string list" where
  "clean_components rooted out [] = out"
| "clean_components rooted out (c # cs) =
     (if c = [] \<or> c = ''.'' then clean_components rooted out cs
      else if c = ''..'' then
        (if out \<noteq> [] \<and> last out \<noteq> ''..'' then clean_components rooted (butlast out) cs
         else if \<not> rooted then clean_components rooted (out @ [''..'']) cs
         else clean_components rooted out cs)
      else clean_components rooted (out @ [c]) cs)"

fun join_slash :: "string list \<Rightarrow> string" where
  "join_slash [] = []"
| "join_slash [c] = c"
| "join_slash (c # d # cs) = c @ ''/'' @ join_slash (d # cs)"

definition path_Clean :: "string \<Rightarrow> string" where
  "path_Clean p =
     (if p = [] then ''.''
      else let rooted = (hd p = CHR ''/'');
               out = join_slash (clean_components rooted [] (components p))
           in if rooted then ''/'' @ out
              else if out = [] then ''.'' else out)"

definition path_Join :: "string list \<Rightarrow> string" where
  "path_Join elem =
     (let nonempty = filter (\<lambda>e. e \<noteq> []) elem
      in if nonempty = [] then [] else path_Clean (join_slash nonempty))"

section \<open>Data model\<close>

text \<open>
  \<open>log.Fatal\<close> and a run-time panic both end the process; every function that can reach
  one returns \<open>fatal + result\<close>.
\<close>

datatype fatal = LogFatal string | Panic string

text \<open>
  A Go \<open>error\<close> value: an ordinary error with its message, or a pointer to a
  \<open>DownloadError\<close> (which embeds an error and so is itself an error).
\<close>

datatype error = Err string | DownloadErrorPtr error bool

record DownloadError =
  error :: "error option"
  retryable :: bool

record 'm DownloadResult =
  err :: DownloadError
  skipped :: bool
  willRetry :: bool
  res_m :: 'm

text \<open>
  The struct \<open>GithubTarballModule\<close>. The field \<open>processed\<close> is a callback; its type
  \<open>'p\<close> stands for the callbacks, and calling it is recorded by the caller.
\<close>

record 'p GithubTarballModule =
  name :: string
  repoName :: string
  version :: string
  cacheFolder :: string
  envRoot :: string
  installPath :: string
  processed :: 'p

record GHModuleRelease =
  Name :: string
  Tarball_url :: string

section \<open>The operating system and the network\<close>

text \<open>A response body: reading it fails with an error, or gives its bytes.\<close>

datatype body = BodyError error | BodyBytes string

record http_Response =
  StatusCode :: nat
  Status :: string
  Body :: body

text \<open>
  The world the program runs in: the state of the file system, of a type \<open>'f\<close> left
  open, and the URLs fetched so far, in order.
\<close>

record 'f world =
  fsys :: 'f
  requests :: "string list"

text \<open>
  What the program calls outside itself is a parameter: the file-system calls of
  packages \<open>os\<close>, \<open>io\<close> and \<open>ioutil\<close> (each returns its error, \<open>None\<close> for nil,
  and the new file system), \<open>http.Get\<close> (its answer may depend on the requests made
  before), \<open>json.Unmarshal\<close> into \<open>GHModuleReleases\<close>, the SHA-1 and base64 of
  \<open>Hash\<close>, and \<open>extract\<close> (here \<open>extract_fn\<close>), which is not part of the files at hand. An open file is
  named by its path.
\<close>

record 'f sys =
  os_Stat :: "string \<Rightarrow> 'f \<Rightarrow> bool"
  ioutil_ReadFile :: "string \<Rightarrow> 'f \<Rightarrow> error + string"
  os_RemoveAll :: "string \<Rightarrow> 'f \<Rightarrow> error option \<times> 'f"
  os_MkdirAll :: "string \<Rightarrow> 'f \<Rightarrow> error option \<times> 'f"
  os_Create :: "string \<Rightarrow> 'f \<Rightarrow> error option \<times> 'f"
  io_Copy :: "string \<Rightarrow> body \<Rightarrow> 'f \<Rightarrow> error option \<times> 'f"
  os_Open :: "string \<Rightarrow> 'f \<Rightarrow> error option"
  os_OpenFile :: "string \<Rightarrow> 'f \<Rightarrow> error option \<times> 'f"
  WriteString :: "string \<Rightarrow> string \<Rightarrow> 'f \<Rightarrow> 'f"
  extract_fn :: "string \<Rightarrow> string \<Rightarrow> 'f \<Rightarrow> error option \<times> 'f"
  http_Get :: "string list \<Rightarrow> string \<Rightarrow> error + http_Response"
  json_Unmarshal :: "string \<Rightarrow> error + GHModuleRelease list"
  sha1_base64 :: "string \<Rightarrow> string"

text \<open>A call of \<open>http.Get\<close>: the request is recorded, whatever the answer.\<close>

definition http_fetch :: "'f sys \<Rightarrow> string \<Rightarrow> 'f world \<Rightarrow> (error + http_Response) \<times> 'f world" where
  "http_fetch S url w = (http_Get S (requests w) url, w\<lparr>requests := requests w @ [url]\<rparr>)"

section \<open>GithubTarballModule\<close>

definition SetEnvRoot :: "string \<Rightarrow> 'p GithubTarballModule \<Rightarrow> 'p GithubTarballModule" where
  "SetEnvRoot s m = m\<lparr>envRoot := s\<rparr>"

definition SetCacheFolder :: "string \<Rightarrow> 'p GithubTarballModule \<Rightarrow> 'p GithubTarballModule" where
  "SetCacheFolder s m = m\<lparr>cacheFolder := s\<rparr>"

definition Processed :: "'p GithubTarballModule \<Rightarrow> 'p" where
  "Processed m = processed m"

definition Hash :: "'f sys \<Rightarrow> 'p GithubTarballModule \<Rightarrow> string" where
  "Hash S m = sha1_base64 S (name m)"

text \<open>The function literal given to \<open>FieldsFunc\<close> in \<open>TargetFolder\<close>.\<close>

definition name_separator :: "char \<Rightarrow> bool" where
  "name_separator r = (r = CHR ''/'' \<or> r = CHR ''-'')"

text \<open>
  \<open>TargetFolder\<close>: fatal without an environment root; \<open>splitPath[len(splitPath)-1]\<close>
  panics when the name has no field. A field is never empty, so the test
  \<open>folderName == ""\<close> is kept as the source has it.
\<close>

definition TargetFolder :: "'p GithubTarballModule \<Rightarrow> fatal + string" where
  "TargetFolder m =
     (if envRoot m = [] then Inl (LogFatal ''Environment root not defined'')
      else let splitPath = FieldsFunc (name m) name_separator
           in if splitPath = [] then Inl (Panic ''index out of range'')
              else let folderName = splitPath ! (length splitPath - 1)
                   in if folderName = [] then Inl (LogFatal ''Oups'')
                      else if installPath m \<noteq> []
                        then Inr (path_Join [envRoot m, installPath m, folderName])
                        else Inr (path_Join [envRoot m, ''modules'', folderName]))"

definition module_Name :: "'p GithubTarballModule \<Rightarrow> string" where
  "module_Name m = name m"

text \<open>
  \<open>IsUpToDate\<close>. \<open>os_Stat\<close> is true when \<open>os.Stat\<close> returns no error. The line
  printed when the version file cannot be read is not modelled.
\<close>

definition IsUpToDate :: "'f sys \<Rightarrow> 'p GithubTarballModule \<Rightarrow> 'f world \<Rightarrow> fatal + bool" where
  "IsUpToDate S m w =
     (case TargetFolder m of
        Inl f \<Rightarrow> Inl f
      | Inr tf \<Rightarrow>
          if \<not> os_Stat S tf (fsys w) then Inr False
          else if version m = [] then Inr True
          else let versionFile = path_Join [tf, ''.version'']
               in (case ioutil_ReadFile S versionFile (fsys w) of
                     Inl e \<Rightarrow> Inr False
                   | Inr v \<Rightarrow> Inr (v = version m)))"

definition downloadToCache :: "'f sys \<Rightarrow> 'p GithubTarballModule \<Rightarrow> body \<Rightarrow> 'f \<Rightarrow> error option \<times> 'f" where
  "downloadToCache S m r f =
     (case os_MkdirAll S (path_Join [cacheFolder m]) f of
        (Some e, f1) \<Rightarrow> (Some e, f1)
      | (None, f1) \<Rightarrow>
          let out = path_Join [cacheFolder m, version m @ ''.tar.gz'']
          in (case os_Create S out f1 of
                (Some e, f2) \<Rightarrow> (Some e, f2)
              | (None, f2) \<Rightarrow> io_Copy S out r f2))"

text \<open>The loop of \<open>downloadURL\<close> over the releases: the first index whose name is the version.\<close>

fun find_version :: "string \<Rightarrow> GHModuleRelease list \<Rightarrow> nat \<Rightarrow> nat option" where
  "find_version v [] i = None"
| "find_version v (result # gr) i = (if v = Name result then Some i else find_version v gr (Suc i))"

text \<open>
  \<open>downloadURL\<close> returns the URL or an error, the module (whose version it sets when
  none was declared) and the world; \<open>gr[0]\<close> on an empty list is a panic.
\<close>

definition downloadURL ::
  "'f sys \<Rightarrow> 'p GithubTarballModule \<Rightarrow> 'f world \<Rightarrow>
     fatal + ((error + string) \<times> 'p GithubTarballModule \<times> 'f world)" where
  "downloadURL S m w =
     (let ghAPIRoot = ''https://api.github.com'';
          url = ghAPIRoot @ ''/repos/'' @ repoName m @ ''/tags''
      in case http_fetch S url w of
           (Inl e, w1) \<Rightarrow> Inr (Inl (DownloadErrorPtr e True), m, w1)
         | (Inr resp, w1) \<Rightarrow>
             if StatusCode resp \<noteq> 200
             then Inr (Inl (DownloadErrorPtr (Err (''failed retrieving URL - '' @ Status resp)) True), m, w1)
             else (case Body resp of
                     BodyError e \<Rightarrow> Inr (Inl (DownloadErrorPtr e True), m, w1)
                   | BodyBytes b \<Rightarrow>
                       (case json_Unmarshal S b of
                          Inl e \<Rightarrow> Inr (Inl e, m, w1)
                        | Inr gr \<Rightarrow>
                            if version m \<noteq> [] then
                              (case find_version (version m) gr 0 of
                                 None \<Rightarrow>
                                   Inr (Inl (DownloadErrorPtr
                                          (Err (''Could not find version '' @ version m @
                                                '' for module '' @ module_Name m)) False), m, w1)
                               | Some index \<Rightarrow> Inr (Inr (Tarball_url (gr ! index)), m, w1))
                            else
                              (case gr of
                                 [] \<Rightarrow> Inl (Panic ''index out of range'')
                               | g # _ \<Rightarrow> Inr (Inr (Tarball_url (gr ! 0)), m\<lparr>version := Name g\<rparr>, w1)))))"

text \<open>
  \<open>Download\<close>. The result of \<open>downloadToCache\<close> is dropped, as in the source; the
  files it wrote stay.
\<close>

definition Download ::
  "'f sys \<Rightarrow> 'p GithubTarballModule \<Rightarrow> 'f world \<Rightarrow>
     fatal + (DownloadError \<times> 'p GithubTarballModule \<times> 'f world)" where
  "Download S m w =
     (case downloadURL S m w of
        Inl f \<Rightarrow> Inl f
      | Inr (Inl e, m1, w1) \<Rightarrow> Inr (\<lparr>error = Some e, retryable = True\<rparr>, m1, w1)
      | Inr (Inr url, m1, w1) \<Rightarrow>
          let blob = path_Join [cacheFolder m1, version m1 @ ''.tar.gz'']
          in (case (if \<not> os_Stat S blob (fsys w1) then
                     (case http_fetch S url w1 of
                        (Inl e, w2) \<Rightarrow>
                          Inl (\<lparr>error = Some (Err (''Failed retrieving '' @ url)), retryable = True\<rparr>, w2)
                      | (Inr forgeArchive, w2) \<Rightarrow>
                          Inr (w2\<lparr>fsys := snd (downloadToCache S m1 (Body forgeArchive) (fsys w2))\<rparr>))
                   else Inr w1) of
               Inl (derr, w2) \<Rightarrow> Inr (derr, m1, w2)
             | Inr w2 \<Rightarrow>
                 (case os_Open S blob (fsys w2) of
                    Some e \<Rightarrow> Inr (\<lparr>error = Some e, retryable = False\<rparr>, m1, w2)
                  | None \<Rightarrow>
                      (case TargetFolder m1 of
                         Inl f \<Rightarrow> Inl f
                       | Inr tf \<Rightarrow>
                           (case extract_fn S blob tf (fsys w2) of
                              (Some e, f3) \<Rightarrow>
                                Inr (\<lparr>error = Some e, retryable = False\<rparr>, m1, w2\<lparr>fsys := f3\<rparr>)
                            | (None, f3) \<Rightarrow>
                                let versionFile = path_Join [tf, ''.version'']
                                in (case os_OpenFile S versionFile f3 of
                                      (Some e, f4) \<Rightarrow>
                                        Inr (\<lparr>error = Some (Err (''Failed creating file '' @ versionFile)),
                                              retryable = False\<rparr>, m1, w2\<lparr>fsys := f4\<rparr>)
                                    | (None, f4) \<Rightarrow>
                                        Inr (\<lparr>error = None, retryable = False\<rparr>, m1,
                                             w2\<lparr>fsys := WriteString S versionFile (version m1) f4\<rparr>)))))))"

section \<open>The pipeline\<close>

text \<open>
  The interface \<open>PuppetModule\<close> is a table of operations on a module of type \<open>'m\<close>;
  an operation that changes its receiver returns the changed module.
\<close>

record ('m, 'f, 'p) PuppetModule =
  if_Name :: "'m \<Rightarrow> string"
  if_Download :: "'m \<Rightarrow> 'f world \<Rightarrow> fatal + (DownloadError \<times> 'm \<times> 'f world)"
  if_SetEnvRoot :: "string \<Rightarrow> 'm \<Rightarrow> 'm"
  if_TargetFolder :: "'m \<Rightarrow> fatal + string"
  if_SetCacheFolder :: "string \<Rightarrow> 'm \<Rightarrow> 'm"
  if_Hash :: "'m \<Rightarrow> string"
  if_IsUpToDate :: "'m \<Rightarrow> 'f world \<Rightarrow> fatal + bool"
  if_Processed :: "'m \<Rightarrow> 'p"

definition github :: "'f sys \<Rightarrow> ('p GithubTarballModule, 'f, 'p) PuppetModule" where
  "github S =
     \<lparr>if_Name = module_Name, if_Download = Download S, if_SetEnvRoot = SetEnvRoot,
      if_TargetFolder = TargetFolder, if_SetCacheFolder = SetCacheFolder, if_Hash = Hash S,
      if_IsUpToDate = IsUpToDate S, if_Processed = Processed\<rparr>"

subsection \<open>downloadModules\<close>

text \<open>
  What a worker does, in order: removing a folder, calling \<open>Download\<close>, sleeping (in
  seconds) and sending a result. A result holds the module as it is when the result
  is made.
\<close>

datatype 'm action = RemoveAllCall string | DownloadCall | Sleep nat | Emit "'m DownloadResult"

definition maxTries :: nat where
  "maxTries = 3"

definition retryDelay :: nat where
  "retryDelay = 5"

text \<open>The inner \<open>for\<close> loop, entered with the counter \<open>i\<close> and the last error.\<close>

function retry_loop ::
  "('m, 'f, 'p) PuppetModule \<Rightarrow> nat \<Rightarrow> DownloadError \<Rightarrow> 'm \<Rightarrow> 'f world \<Rightarrow>
     fatal + ('m action list \<times> DownloadError \<times> 'm \<times> 'f world)" where
  "retry_loop I i derr m w =
     (if error derr \<noteq> None \<and> i < maxTries - 1 \<and> retryable derr then
        (case if_Download I m w of
           Inl f \<Rightarrow> Inl f
         | Inr (derr1, m1, w1) \<Rightarrow>
             (case retry_loop I (i + 1) derr1 m1 w1 of
                Inl f \<Rightarrow> Inl f
              | Inr (acts, derr2, m2, w2) \<Rightarrow>
                  Inr ([Emit \<lparr>err = derr, skipped = False, willRetry = True, res_m = m\<rparr>,
                        Sleep retryDelay, DownloadCall] @ acts, derr2, m2, w2)))
      else Inr ([], derr, m, w))"
  by pat_completeness auto
termination
  by (relation "measure (\<lambda>(I, i, derr, m, w). maxTries - 1 - i)") auto

text \<open>The body of the outer loop, for one module received.\<close>

definition downloadModules_body ::
  "('m, 'f, 'p) PuppetModule \<Rightarrow> 'f sys \<Rightarrow> 'm \<Rightarrow> 'f world \<Rightarrow> fatal + ('m action list \<times> 'f world)" where
  "downloadModules_body I S m w =
     (case if_IsUpToDate I m w of
        Inl f \<Rightarrow> Inl f
      | Inr True \<Rightarrow>
          Inr ([Emit \<lparr>err = \<lparr>error = None, retryable = False\<rparr>, skipped = True,
                      willRetry = False, res_m = m\<rparr>], w)
      | Inr False \<Rightarrow>
          (case if_TargetFolder I m of
             Inl f \<Rightarrow> Inl f
           | Inr tf \<Rightarrow>
               (case os_RemoveAll S tf (fsys w) of
                  (Some e, f1) \<Rightarrow> Inl (LogFatal (''Error removing folder: '' @ tf))
                | (None, f1) \<Rightarrow>
                    (case if_Download I m (w\<lparr>fsys := f1\<rparr>) of
                       Inl f \<Rightarrow> Inl f
                     | Inr (derr, m1, w1) \<Rightarrow>
                         (case retry_loop I 0 derr m1 w1 of
                            Inl f \<Rightarrow> Inl f
                          | Inr (acts, derr2, m2, w2) \<Rightarrow>
                              Inr ([RemoveAllCall tf, DownloadCall] @ acts @
                                   [Emit (if error derr2 \<noteq> None
                                          then \<lparr>err = derr2, skipped = False, willRetry = False, res_m = m2\<rparr>
                                          else \<lparr>err = \<lparr>error = None, retryable = False\<rparr>, skipped = False,
                                                willRetry = False, res_m = m2\<rparr>)], w2))))))"

text \<open>One worker: the modules it receives from the channel, one after the other.\<close>

fun downloadModules ::
  "('m, 'f, 'p) PuppetModule \<Rightarrow> 'f sys \<Rightarrow> 'm list \<Rightarrow> 'f world \<Rightarrow> fatal + ('m action list \<times> 'f world)" where
  "downloadModules I S [] w = Inr ([], w)"
| "downloadModules I S (m # c) w =
     (case downloadModules_body I S m w of
        Inl f \<Rightarrow> Inl f
      | Inr (acts, w1) \<Rightarrow>
          (case downloadModules I S c w1 of
             Inl f \<Rightarrow> Inl f
           | Inr (acts1, w2) \<Rightarrow> Inr (acts @ acts1, w2)))"

text \<open>The results a list of actions sends, in order.\<close>

fun emitted :: "'m action list \<Rightarrow> 'm DownloadResult list" where
  "emitted [] = []"
| "emitted (Emit r # acts) = r # emitted acts"
| "emitted (a # acts) = emitted acts"

subsection \<open>deduplicate\<close>

record Cache =
  folder :: string

text \<open>
  For each module received, the deduplicator either calls its \<open>Processed\<close> or sends
  it on; the list of these actions is in the order of arrival.
\<close>

datatype 'm dedup_action = ProcessedCall 'm | Send 'm

fun deduplicate_from ::
  "('m, 'f, 'p) PuppetModule \<Rightarrow> Cache \<Rightarrow> string \<Rightarrow> (string \<rightharpoonup> bool) \<Rightarrow> 'm list \<Rightarrow>
     fatal + 'm dedup_action list" where
  "deduplicate_from I cache environmentRootFolder modules [] = Inr []"
| "deduplicate_from I cache environmentRootFolder modules (m0 # inp) =
     (let m1 = if_SetEnvRoot I environmentRootFolder m0;
          m = if_SetCacheFolder I (path_Join [folder cache, if_Hash I m1]) m1
      in case if_TargetFolder I m of
           Inl f \<Rightarrow> Inl f
         | Inr tf \<Rightarrow>
             if modules tf \<noteq> None then
               (case deduplicate_from I cache environmentRootFolder modules inp of
                  Inl f \<Rightarrow> Inl f
                | Inr acts \<Rightarrow> Inr (ProcessedCall m # acts))
             else
               (case deduplicate_from I cache environmentRootFolder (modules(tf \<mapsto> True)) inp of
                  Inl f \<Rightarrow> Inl f
                | Inr acts \<Rightarrow> Inr (Send m # acts)))"

definition deduplicate ::
  "('m, 'f, 'p) PuppetModule \<Rightarrow> 'm list \<Rightarrow> Cache \<Rightarrow> string \<Rightarrow> fatal + 'm dedup_action list" where
  "deduplicate I inp cache environmentRootFolder =
     deduplicate_from I cache environmentRootFolder Map.empty inp"

fun sent :: "'m dedup_action list \<Rightarrow> 'm list" where
  "sent [] = []"
| "sent (Send m # acts) = m # sent acts"
| "sent (ProcessedCall m # acts) = sent acts"

fun dedup_processed :: "'m dedup_action list \<Rightarrow> 'm list" where
  "dedup_processed [] = []"
| "dedup_processed (Send m # acts) = dedup_processed acts"
| "dedup_processed (ProcessedCall m # acts) = m # dedup_processed acts"

subsection \<open>parseResults\<close>

text \<open>The text of an error: a \<open>DownloadError\<close> gives the text of the error it embeds.\<close>

fun Error_text :: "error \<Rightarrow> string" where
  "Error_text (Err s) = s"
| "Error_text (DownloadErrorPtr e r) = Error_text e"

text \<open>
  What the aggregator has done so far: the counter \<open>downloadErrors\<close> (a Go \<open>int\<close>, 64
  bits), the lines logged, the number of \<open>wg.Add(1)\<close>, the metadata files sent to the
  module-file channel, and the modules whose \<open>Processed\<close> it called.
\<close>

record ('m, 'mf) aggregate =
  downloadErrors :: "64 word"
  log_lines :: "string list"
  wg_Add :: nat
  metadataFiles :: "'mf list"
  Processed_calls :: "'m list"

text \<open>
  \<open>NewMetadataFile\<close> is defined in another file of the program; it is a parameter,
  \<open>None\<close> standing for nil.
\<close>

fun parseResults_from ::
  "('m, 'f, 'p) PuppetModule \<Rightarrow> bool \<Rightarrow> (string \<Rightarrow> 'mf option) \<Rightarrow> 'm DownloadResult list \<Rightarrow>
     ('m, 'mf) aggregate \<Rightarrow> fatal + ('m, 'mf) aggregate" where
  "parseResults_from I downloadDeps NewMetadataFile [] a = Inr a"
| "parseResults_from I downloadDeps NewMetadataFile (res # results) a =
     (case error (err res) of
        Some e \<Rightarrow>
          if retryable (err res) = True \<and> willRetry res = True then
            parseResults_from I downloadDeps NewMetadataFile results
              (a\<lparr>log_lines := log_lines a @
                    [''failed downloading '' @ if_Name I (res_m res) @ '': '' @ Error_text e @ ''... Retrying'']\<rparr>)
          else
            parseResults_from I downloadDeps NewMetadataFile results
              (a\<lparr>log_lines := log_lines a @
                    [''failed downloading '' @ if_Name I (res_m res) @ '': '' @ Error_text e @ ''. Giving up!''],
                 downloadErrors := downloadErrors a + 1,
                 Processed_calls := Processed_calls a @ [res_m res]\<rparr>)
      | None \<Rightarrow>
          let a1 = (if skipped res \<noteq> True
                    then a\<lparr>log_lines := log_lines a @ [''Downloaded '' @ if_Name I (res_m res)]\<rparr>
                    else a)
          in (case (if downloadDeps then
                     (case if_TargetFolder I (res_m res) of
                        Inl f \<Rightarrow> Inl f
                      | Inr tf \<Rightarrow>
                          (case NewMetadataFile (path_Join [tf, ''metadata.json'']) of
                             None \<Rightarrow> Inr a1
                           | Some mf \<Rightarrow>
                               Inr (a1\<lparr>wg_Add := wg_Add a1 + 1,
                                       metadataFiles := metadataFiles a1 @ [mf]\<rparr>)))
                   else Inr a1) of
               Inl f \<Rightarrow> Inl f
             | Inr a2 \<Rightarrow>
                 parseResults_from I downloadDeps NewMetadataFile results
                   (a2\<lparr>Processed_calls := Processed_calls a2 @ [res_m res]\<rparr>)))"

definition parseResults ::
  "('m, 'f, 'p) PuppetModule \<Rightarrow> 'm DownloadResult list \<Rightarrow> bool \<Rightarrow> (string \<Rightarrow> 'mf option) \<Rightarrow>
     fatal + ('m, 'mf) aggregate" where
  "parseResults I results downloadDeps NewMetadataFile =
     parseResults_from I downloadDeps NewMetadataFile results
       \<lparr>downloadErrors = 0, log_lines = [], wg_Add = 0, metadataFiles = [], Processed_calls = []\<rparr>"



section \<open>A small system to run the program in\<close>

text \<open>
  A file system with nothing but paths: a path is a folder or a file with its content,
  the first entry for a path counts. \<open>extract\<close> here makes the target folder and
  nothing else, and the hash is a stand-in that keeps the name apart from its slashes.
\<close>

datatype node = Dir | File string

type_synonym sample_fs = "(string \<times> node) list"

definition sample_ReadFile :: "string \<Rightarrow> sample_fs \<Rightarrow> error + string" where
  "sample_ReadFile p f =
     (case map_of f p of Some (File c) \<Rightarrow> Inr c | _ \<Rightarrow> Inl (Err (''open '' @ p @ '': no such file'')))"

definition sample_RemoveAll :: "string \<Rightarrow> sample_fs \<Rightarrow> error option \<times> sample_fs" where
  "sample_RemoveAll p f = (None, filter (\<lambda>(q, n). q \<noteq> p \<and> take (length p + 1) q \<noteq> p @ ''/'') f)"

definition sample_Copy :: "string \<Rightarrow> body \<Rightarrow> sample_fs \<Rightarrow> error option \<times> sample_fs" where
  "sample_Copy p r f = (case r of BodyError e \<Rightarrow> (Some e, f) | BodyBytes b \<Rightarrow> (None, (p, File b) # f))"

definition sample_Open :: "string \<Rightarrow> sample_fs \<Rightarrow> error option" where
  "sample_Open p f =
     (case map_of f p of Some (File c) \<Rightarrow> None | _ \<Rightarrow> Some (Err (''open '' @ p @ '': no such file'')))"

definition sample_OpenFile :: "string \<Rightarrow> sample_fs \<Rightarrow> error option \<times> sample_fs" where
  "sample_OpenFile p f = (None, if map_of f p = None then (p, File []) # f else f)"

text \<open>The two bodies the sample decoder knows: no tag, and the one tag \<open>1.0.0\<close>.\<close>

definition sample_tags :: string where
  \<open>sample_tags = ''[{"name":"1.0.0","tarball_url":"https://api.github.com/repos/puppetlabs/puppetlabs-apache/tarball/1.0.0"}]''\<close>

definition sample_Unmarshal :: "string \<Rightarrow> error + GHModuleRelease list" where
  "sample_Unmarshal b =
     (if b = ''[]'' then Inr []
      else if b = sample_tags
        then Inr [\<lparr>Name = ''1.0.0'',
                   Tarball_url = ''https://api.github.com/repos/puppetlabs/puppetlabs-apache/tarball/1.0.0''\<rparr>]
      else Inl (Err ''invalid character''))"

text \<open>A host that answers the tags request with the given body, whatever was asked before.\<close>

definition sample_Get :: "string \<Rightarrow> string list \<Rightarrow> string \<Rightarrow> error + http_Response" where
  "sample_Get tags history url =
     (if url = ''https://api.github.com/repos/puppetlabs/puppetlabs-apache/tags''
        then Inr \<lparr>StatusCode = 200, Status = ''200 OK'', Body = BodyBytes tags\<rparr>
      else if url = ''https://api.github.com/repos/puppetlabs/puppetlabs-apache/tarball/1.0.0''
        then Inr \<lparr>StatusCode = 200, Status = ''200 OK'', Body = BodyBytes ''tarball''\<rparr>
      else Inr \<lparr>StatusCode = 404, Status = ''404 Not Found'', Body = BodyBytes []\<rparr>)"

definition sample_sys :: "string \<Rightarrow> sample_fs sys" where
  "sample_sys tags =
     \<lparr>os_Stat = (\<lambda>p f. map_of f p \<noteq> None),
      ioutil_ReadFile = sample_ReadFile,
      os_RemoveAll = sample_RemoveAll,
      os_MkdirAll = (\<lambda>p f. (None, (p, Dir) # f)),
      os_Create = (\<lambda>p f. (None, (p, File []) # f)),
      io_Copy = sample_Copy,
      os_Open = sample_Open,
      os_OpenFile = sample_OpenFile,
      WriteString = (\<lambda>p s f. (p, File s) # f),
      extract_fn = (\<lambda>blob target f. (None, (target, Dir) # f)),
      http_Get = sample_Get tags,
      json_Unmarshal = sample_Unmarshal,
      sha1_base64 = (\<lambda>s. map (\<lambda>c. if c = CHR ''/'' then CHR ''_'' else c) s @ ''='')\<rparr>"

definition apache :: "string \<Rightarrow> nat GithubTarballModule" where
  "apache v =
     \<lparr>name = ''puppetlabs/puppetlabs-apache'', repoName = ''puppetlabs/puppetlabs-apache'',
      version = v, cacheFolder = ''.cache/apache'', envRoot = ''/env'', installPath = [],
      processed = 0\<rparr>"

definition sample_world :: "sample_fs world" where
  "sample_world = \<lparr>fsys = [], requests = []\<rparr>"

text \<open>The same world after an earlier run has left the archive of version 1.0.0 in the cache.\<close>

definition cached_world :: "sample_fs world" where
  "cached_world = \<lparr>fsys = [(''.cache/apache/1.0.0.tar.gz'', File ''tarball'')], requests = []\<rparr>"

text \<open>The world with the module installed at version 1.0.0.\<close>

definition installed_world :: "sample_fs world" where
  "installed_world =
     \<lparr>fsys = [(''/env/modules/apache/.version'', File ''1.0.0''), (''/env/modules/apache'', Dir)],
      requests = []\<rparr>"

section \<open>The specification's wording, for comparison\<close>

text \<open>
  The target folder as the specification writes it: environment root, install
  subpath or \<open>modules\<close>, and the part of the name after its last slash, put together
  with slashes.
\<close>

definition last_path_segment :: "string \<Rightarrow> string" where
  "last_path_segment s = last (components s)"

definition spec_TargetFolder :: "'p GithubTarballModule \<Rightarrow> string" where
  "spec_TargetFolder m =
     envRoot m @ ''/'' @ (if installPath m \<noteq> [] then installPath m else ''modules'') @ ''/'' @
     last_path_segment (name m)"

text \<open>
  The downloading of one module as the specification writes it, with \<open>n\<close> attempts
  allowed: call \<open>Download\<close>; on success send a success result; on a retryable error,
  if an attempt is left, send a will-retry result, sleep and try again; otherwise
  send a terminal failure result.
\<close>

fun spec_attempts ::
  "('m, 'f, 'p) PuppetModule \<Rightarrow> nat \<Rightarrow> 'm \<Rightarrow> 'f world \<Rightarrow> fatal + ('m action list \<times> 'f world)" where
  "spec_attempts I 0 m w = Inr ([], w)"
| "spec_attempts I (Suc n) m w =
     (case if_Download I m w of
        Inl f \<Rightarrow> Inl f
      | Inr (derr, m1, w1) \<Rightarrow>
          if error derr = None then
            Inr ([DownloadCall,
                  Emit \<lparr>err = \<lparr>error = None, retryable = False\<rparr>, skipped = False,
                        willRetry = False, res_m = m1\<rparr>], w1)
          else if retryable derr \<and> 0 < n then
            (case spec_attempts I n m1 w1 of
               Inl f \<Rightarrow> Inl f
             | Inr (acts, w2) \<Rightarrow>
                 Inr ([DownloadCall,
                       Emit \<lparr>err = derr, skipped = False, willRetry = True, res_m = m1\<rparr>,
                       Sleep 5] @ acts, w2))
          else
            Inr ([DownloadCall,
                  Emit \<lparr>err = derr, skipped = False, willRetry = False, res_m = m1\<rparr>], w1))"

text \<open>A terminal failure result: an error, and no retry announced.\<close>

definition terminal_failure :: "'m DownloadResult \<Rightarrow> bool" where
  "terminal_failure r = (error (err r) \<noteq> None \<and> \<not> willRetry r)"

text \<open>A module as the deduplicator leaves it, with its environment root and cache folder set.\<close>

definition bind_paths :: "('m, 'f, 'p) PuppetModule \<Rightarrow> Cache \<Rightarrow> string \<Rightarrow> 'm \<Rightarrow> 'm" where
  "bind_paths I cache environmentRootFolder m0 =
     if_SetCacheFolder I (path_Join [folder cache, if_Hash I (if_SetEnvRoot I environmentRootFolder m0)])
       (if_SetEnvRoot I environmentRootFolder m0)"

section \<open>Runs of the pipeline\<close>

text \<open>
  The workers share the world and the results of their goroutines reach the
  aggregator in no fixed order. A run of the pipeline is therefore described by the
  modules the workers receive, each with the world it is received in, and by the
  results in the order the aggregator gets them.

  The results a worker sends for one module that it receives in the world \<open>w\<close>
  (none when the process ends there), and whether the module failed terminally.
\<close>

definition worker_results ::
  "('m, 'f, 'p) PuppetModule \<Rightarrow> 'f sys \<Rightarrow> 'm \<Rightarrow> 'f world \<Rightarrow> 'm DownloadResult list" where
  "worker_results I S m w =
     (case downloadModules_body I S m w of Inl f \<Rightarrow> [] | Inr (acts, w1) \<Rightarrow> emitted acts)"

definition failed_terminally ::
  "('m, 'f, 'p) PuppetModule \<Rightarrow> 'f sys \<Rightarrow> 'm \<Rightarrow> 'f world \<Rightarrow> bool" where
  "failed_terminally I S m w = (filter terminal_failure (worker_results I S m w) \<noteq> [])"

section \<open>A sample run\<close>

text \<open>Sample declarations: a second one for the same folder, and one for another module.\<close>

definition apache_again :: "nat GithubTarballModule" where
  "apache_again =
     \<lparr>name = ''apache'', repoName = ''puppetlabs/puppetlabs-apache'', version = ''9.9.9'',
      cacheFolder = [], envRoot = [], installPath = [], processed = 1\<rparr>"

definition stdlib :: "nat GithubTarballModule" where
  "stdlib =
     \<lparr>name = ''puppetlabs-stdlib'', repoName = ''puppetlabs/puppetlabs-stdlib'', version = ''4.1.0'',
      cacheFolder = [], envRoot = [], installPath = [], processed = 2\<rparr>"

definition sample_cache :: Cache where
  "sample_cache = \<lparr>folder = ''.cache''\<rparr>"

text \<open>
  A sample run: the three declarations pass the deduplicator, each one sent on is
  downloaded in the empty world, and the results reach the aggregator in that order.
\<close>

definition sample_github :: "(nat GithubTarballModule, sample_fs, nat) PuppetModule" where
  "sample_github = github (sample_sys sample_tags)"

definition sample_decls :: "nat GithubTarballModule list" where
  "sample_decls = [apache ''1.0.0'', apache_again, stdlib]"

definition sample_dedup :: "nat GithubTarballModule dedup_action list" where
  "sample_dedup = projr (deduplicate sample_github sample_decls sample_cache ''/env'')"

definition sample_runs :: "(nat GithubTarballModule \<times> sample_fs world) list" where
  "sample_runs = map (\<lambda>m. (m, sample_world)) (sent sample_dedup)"

definition sample_results :: "nat GithubTarballModule DownloadResult list" where
  "sample_results =
     concat (map (\<lambda>(m, w). worker_results sample_github (sample_sys sample_tags) m w) sample_runs)"

definition sample_aggregate :: "(nat GithubTarballModule, string) aggregate" where
  "sample_aggregate = projr (parseResults sample_github sample_results True (\<lambda>p. None))"







text \<open>A skipped result, as the worker makes it for the installed module.\<close>

definition skipped_result :: "nat GithubTarballModule DownloadResult" where
  "skipped_result =
     \<lparr>err = \<lparr>error = None, retryable = False\<rparr>, skipped = True, willRetry = False,
      res_m = apache ''1.0.0''\<rparr>"

section \<open>The archive module: resolving and downloading\<close>

text \<open>
  C10. With no version declared and a tags listing that decodes to the empty list,
  \<open>downloadURL\<close> does not return an error: reading \<open>gr[0]\<close> panics. Here the host
  answers the tags request with status 200 and the body \<open>[]\<close>.
\<close>

theorem downloadURL_empty_tags_panics:
  "downloadURL (sample_sys ''[]'') (apache []) sample_world = Inl (Panic ''index out of range'')"
  by code_simp

text \<open>
  C2. A declared version 9.9.9 that the tags listing (one tag, 1.0.0) does not have:
  \<open>Download\<close> hands the error on as retryable, so the worker calls \<open>Download\<close> three
  times and sends two will-retry results before the terminal one.
\<close>

theorem version_not_found_is_retried:
  "\<not> isl (downloadModules_body (github (sample_sys sample_tags)) (sample_sys sample_tags)
            (apache ''9.9.9'') sample_world) \<and>
   count_list (fst (projr (downloadModules_body (github (sample_sys sample_tags))
            (sample_sys sample_tags) (apache ''9.9.9'') sample_world))) DownloadCall = 3 \<and>
   map willRetry (emitted (fst (projr (downloadModules_body (github (sample_sys sample_tags))
            (sample_sys sample_tags) (apache ''9.9.9'') sample_world)))) = [True, True, False] \<and>
   map (\<lambda>r. retryable (err r)) (emitted (fst (projr (downloadModules_body
            (github (sample_sys sample_tags)) (sample_sys sample_tags) (apache ''9.9.9'')
            sample_world)))) = [True, True, True]"
  by code_simp

text \<open>\<open>downloadURL\<close> makes one request, for the tags, and changes at most the version.\<close>

lemma downloadURL_frame:
  assumes "downloadURL S m w = Inr (r, m1, w1)"
  shows "requests w1 = requests w @ [''https://api.github.com/repos/'' @ repoName m @ ''/tags''] \<and>
         fsys w1 = fsys w \<and> m1 = m\<lparr>version := version m1\<rparr> \<and> (version m \<noteq> [] \<longrightarrow> m1 = m)"
  using assms
  by (auto simp: downloadURL_def http_fetch_def Let_def
      split: sum.splits if_splits body.splits option.splits list.splits prod.splits)

lemma TargetFolder_version: "TargetFolder (m\<lparr>version := v\<rparr>) = TargetFolder m"
  by (simp add: TargetFolder_def Let_def)

text \<open>
  C1, as the code has it. \<open>Download\<close> first resolves the URL, which fetches the tags
  listing, and only then looks for the archive in the cache. When the archive of the
  resolved version \<open>version m1\<close> is in the cache, \<open>Download\<close> returns having made
  exactly one request, the one for the tags: the archive itself is not fetched.
\<close>

theorem Download_cache_hit:
  assumes "downloadURL S m w = Inr (r, m1, w1)"
    and "os_Stat S (path_Join [cacheFolder m1, version m1 @ ''.tar.gz'']) (fsys w)"
    and "TargetFolder m = Inr tf"
  shows "\<exists>derr w2. Download S m w = Inr (derr, m1, w2) \<and>
           requests w2 = requests w @ [''https://api.github.com/repos/'' @ repoName m @ ''/tags'']"
proof -
  from downloadURL_frame [OF assms(1)]
  have rq: "requests w1 = requests w @ [''https://api.github.com/repos/'' @ repoName m @ ''/tags'']"
    and fs: "fsys w1 = fsys w" and m1: "m1 = m\<lparr>version := version m1\<rparr>" by auto
  have tf: "TargetFolder m1 = Inr tf"
    using assms(3) TargetFolder_version [where m = m and v = "version m1"] m1 by simp
  show ?thesis
    using assms(1,2) rq fs tf
    by (auto simp: Download_def Let_def split: sum.splits option.splits prod.splits)
qed

theorem Download_cache_hit_witness:
  "downloadURL (sample_sys sample_tags) (apache ''1.0.0'') cached_world =
     Inr (Inr ''https://api.github.com/repos/puppetlabs/puppetlabs-apache/tarball/1.0.0'',
          apache ''1.0.0'',
          cached_world\<lparr>requests := [''https://api.github.com/repos/puppetlabs/puppetlabs-apache/tags'']\<rparr>) \<and>
   os_Stat (sample_sys sample_tags)
     (path_Join [cacheFolder (apache ''1.0.0''), version (apache ''1.0.0'') @ ''.tar.gz''])
     (fsys cached_world) \<and>
   TargetFolder (apache ''1.0.0'') = Inr ''/env/modules/apache'' \<and>
   (\<exists>derr w2. Download (sample_sys sample_tags) (apache ''1.0.0'') cached_world =
        Inr (derr, apache ''1.0.0'', w2) \<and>
      requests w2 = requests cached_world @
        [''https://api.github.com/repos/'' @ repoName (apache ''1.0.0'') @ ''/tags''])"
proof -
  have h1: "downloadURL (sample_sys sample_tags) (apache ''1.0.0'') cached_world =
     Inr (Inr ''https://api.github.com/repos/puppetlabs/puppetlabs-apache/tarball/1.0.0'',
          apache ''1.0.0'',
          cached_world\<lparr>requests := [''https://api.github.com/repos/puppetlabs/puppetlabs-apache/tags'']\<rparr>)"
    by code_simp
  have h2: "os_Stat (sample_sys sample_tags)
     (path_Join [cacheFolder (apache ''1.0.0''), version (apache ''1.0.0'') @ ''.tar.gz''])
     (fsys cached_world)"
    by code_simp
  have h3: "TargetFolder (apache ''1.0.0'') = Inr ''/env/modules/apache''"
    by code_simp
  from Download_cache_hit [OF h1 h2 h3] h1 h2 h3 show ?thesis by blast
qed

text \<open>
  The claim as it is written fails: with the archive of version 1.0.0 in the cache,
  \<open>Download\<close> still makes a request.
\<close>

theorem Download_cache_hit_fetches_tags:
  "os_Stat (sample_sys sample_tags) ''.cache/apache/1.0.0.tar.gz'' (fsys cached_world) \<and>
   path_Join [cacheFolder (apache ''1.0.0''), version (apache ''1.0.0'') @ ''.tar.gz''] =
     ''.cache/apache/1.0.0.tar.gz'' \<and>
   \<not> isl (Download (sample_sys sample_tags) (apache ''1.0.0'') cached_world) \<and>
   requests (snd (snd (projr (Download (sample_sys sample_tags) (apache ''1.0.0'') cached_world)))) =
     [''https://api.github.com/repos/puppetlabs/puppetlabs-apache/tags'']"
  by code_simp

section \<open>The target folder\<close>

text \<open>\<open>path_Clean\<close> and \<open>path_Join\<close> on the cases of the Go library's own test tables.\<close>

lemma path_Clean_examples:
  "map path_Clean [''abc'', ''abc/def'', ''a/b/c'', ''.'', ''..'', ''../..'', ''../../abc'', ''/abc'', ''/'', '''',
     ''abc/'', ''abc/def/'', ''a/b/c/'', ''./'', ''../'', ''../../'', ''/abc/'',
     ''abc//def//ghi'', ''//abc'', ''///abc'', ''//abc//'', ''abc//'',
     ''abc/./def'', ''/./abc/def'', ''abc/.'',
     ''abc/def/ghi/../jkl'', ''abc/def/../ghi/../jkl'', ''abc/def/..'', ''abc/def/../..'', ''/abc/def/../..'',
     ''abc/def/../../..'', ''/abc/def/../../..'', ''abc/def/../../../ghi/jkl/../../../mno'',
     ''abc/./../def'', ''abc//./../def'', ''abc/../../././../def'']
   = [''abc'', ''abc/def'', ''a/b/c'', ''.'', ''..'', ''../..'', ''../../abc'', ''/abc'', ''/'', ''.'',
     ''abc'', ''abc/def'', ''a/b/c'', ''.'', ''..'', ''../..'', ''/abc'',
     ''abc/def/ghi'', ''/abc'', ''/abc'', ''/abc'', ''abc'',
     ''abc/def'', ''/abc/def'', ''abc'',
     ''abc/def/jkl'', ''abc/jkl'', ''abc'', ''.'', ''/'',
     ''..'', ''/'', ''../../mno'',
     ''def'', ''def'', ''../../def'']"
  by code_simp

lemma path_Join_examples:
  "map path_Join [[], [''''], [''a''], [''a'', ''b''], [''a'', ''''], ['''', ''b''], [''/'', ''a''], [''/'', ''''],
      [''a/'', ''b''], [''a/'', ''''], ['''', '''']]
   = ['''', '''', ''a'', ''a/b'', ''a'', ''b'', ''/a'', ''/'', ''a/b'', ''a'', '''']"
  by code_simp

lemma FieldsFunc_from_empty:
  "FieldsFunc_from f cur s = [] \<longleftrightarrow> cur = [] \<and> (\<forall>c\<in>set s. f c)"
  by (induction s arbitrary: cur) auto

text \<open>
  The last field lies in the string between a separator (or the start) and a run of
  separators reaching the end.
\<close>

lemma FieldsFunc_from_last:
  assumes "\<forall>c\<in>set cur. \<not> f c" and "FieldsFunc_from f cur s \<noteq> []"
  shows "\<exists>pre post. cur @ s = pre @ last (FieldsFunc_from f cur s) @ post \<and>
           last (FieldsFunc_from f cur s) \<noteq> [] \<and>
           (\<forall>c\<in>set (last (FieldsFunc_from f cur s)). \<not> f c) \<and>
           (\<forall>c\<in>set post. f c) \<and> (pre = [] \<or> f (last pre))"
  using assms
proof (induction s arbitrary: cur)
  case Nil
  then have "cur \<noteq> []" by auto
  then show ?case using Nil.prems(1) by (intro exI [of _ "[]"]) auto
next
  case (Cons c cs)
  show ?case
  proof (cases "f c")
    case False
    then have a: "\<forall>x\<in>set (cur @ [c]). \<not> f x" using Cons.prems(1) by auto
    have b: "FieldsFunc_from f (cur @ [c]) cs \<noteq> []" using Cons.prems(2) False by simp
    from Cons.IH [OF a b] show ?thesis using False by simp
  next
    case True
    show ?thesis
    proof (cases "FieldsFunc_from f [] cs = []")
      case e: True
      then have seps: "\<forall>x\<in>set cs. f x" by (simp add: FieldsFunc_from_empty)
      have ne: "cur \<noteq> []" using Cons.prems(2) True e by (auto split: if_splits)
      then have "FieldsFunc_from f cur (c # cs) = [cur]" using True e by simp
      moreover have "cur @ c # cs = [] @ cur @ (c # cs)" by simp
      ultimately show ?thesis using ne seps True Cons.prems(1)
        by (metis set_ConsD last.simps)
    next
      case ne: False
      have "\<forall>x\<in>set ([]::string). \<not> f x" by simp
      from Cons.IH [OF this ne] obtain pre post where
        p: "cs = pre @ last (FieldsFunc_from f [] cs) @ post"
          "last (FieldsFunc_from f [] cs) \<noteq> []"
          "\<forall>c\<in>set (last (FieldsFunc_from f [] cs)). \<not> f c"
          "\<forall>c\<in>set post. f c" "pre = [] \<or> f (last pre)" by auto
      have l: "last (FieldsFunc_from f cur (c # cs)) = last (FieldsFunc_from f [] cs)"
        using True ne by simp
      have "cur @ c # cs = (cur @ c # pre) @ last (FieldsFunc_from f [] cs) @ post"
        using p(1) by simp
      moreover have "f (last (cur @ c # pre))" using p(5) True by auto
      ultimately show ?thesis using p l by (metis append_is_Nil_conv list.distinct(1))
    qed
  qed
qed

lemma TargetFolder_Inr:
  assumes "envRoot m \<noteq> []" and "FieldsFunc (name m) name_separator \<noteq> []"
  shows "TargetFolder m =
           Inr (path_Join [envRoot m, if installPath m \<noteq> [] then installPath m else ''modules'',
                           last (FieldsFunc (name m) name_separator)])"
proof -
  from FieldsFunc_from_last [of "[]" name_separator "name m"] assms(2)
  have "last (FieldsFunc (name m) name_separator) \<noteq> []" by (auto simp: FieldsFunc_def)
  then show ?thesis using assms
    by (simp add: TargetFolder_def Let_def last_conv_nth)
qed

text \<open>
  C9, as the code has it. With an environment root and a name that has a character
  other than \<open>/\<close> and \<open>-\<close>, the target folder is \<open>path.Join\<close> of the environment
  root, the install subpath (or \<open>modules\<close>) and the leaf name, where the leaf name
  is the last field of the name cut at slashes and at hyphens: it is not empty, has
  neither character, is followed by such characters only, and is preceded by one
  or starts the name.
\<close>

theorem TargetFolder_last_field:
  assumes "envRoot m \<noteq> []" and "\<exists>c\<in>set (name m). \<not> name_separator c"
  shows "\<exists>pre leaf post.
           name m = pre @ leaf @ post \<and> leaf \<noteq> [] \<and> (\<forall>c\<in>set leaf. \<not> name_separator c) \<and>
           (\<forall>c\<in>set post. name_separator c) \<and> (pre = [] \<or> name_separator (last pre)) \<and>
           TargetFolder m =
             Inr (path_Join [envRoot m, if installPath m \<noteq> [] then installPath m else ''modules'', leaf])"
proof -
  have ne: "FieldsFunc (name m) name_separator \<noteq> []"
    using assms(2) by (simp add: FieldsFunc_def FieldsFunc_from_empty)
  from FieldsFunc_from_last [of "[]" name_separator "name m"] ne
  obtain pre post where
    "name m = pre @ last (FieldsFunc (name m) name_separator) @ post"
    "last (FieldsFunc (name m) name_separator) \<noteq> []"
    "\<forall>c\<in>set (last (FieldsFunc (name m) name_separator)). \<not> name_separator c"
    "\<forall>c\<in>set post. name_separator c" "pre = [] \<or> name_separator (last pre)"
    by (auto simp: FieldsFunc_def)
  then show ?thesis using TargetFolder_Inr [OF assms(1) ne] by blast
qed

theorem TargetFolder_last_field_witness:
  "envRoot (apache ''1.0.0'') \<noteq> [] \<and>
   (\<exists>c\<in>set (name (apache ''1.0.0'')). \<not> name_separator c) \<and>
   (\<exists>pre leaf post.
      name (apache ''1.0.0'') = pre @ leaf @ post \<and> leaf \<noteq> [] \<and>
      (\<forall>c\<in>set leaf. \<not> name_separator c) \<and>
      (\<forall>c\<in>set post. name_separator c) \<and> (pre = [] \<or> name_separator (last pre)) \<and>
      TargetFolder (apache ''1.0.0'') =
        Inr (path_Join [envRoot (apache ''1.0.0''),
                        if installPath (apache ''1.0.0'') \<noteq> [] then installPath (apache ''1.0.0'')
                        else ''modules'', leaf]))"
proof -
  have h1: "envRoot (apache ''1.0.0'') \<noteq> []" by (simp add: apache_def)
  have h2: "\<exists>c\<in>set (name (apache ''1.0.0'')). \<not> name_separator c"
    by (simp add: apache_def name_separator_def)
  from TargetFolder_last_field [OF h1 h2] h1 h2 show ?thesis by blast
qed

text \<open>
  The claim as it is written fails: the last path segment of
  \<open>puppetlabs/puppetlabs-apache\<close> is \<open>puppetlabs-apache\<close>, the folder is \<open>apache\<close>.
  And \<open>path.Join\<close> cleans what it joins: under the environment root \<open>.\<close>, which
  \<open>main\<close> uses for \<open>install\<close>, the folder is \<open>modules/apache\<close>.
\<close>

theorem TargetFolder_not_last_path_segment:
  "spec_TargetFolder (apache ''1.0.0'') = ''/env/modules/puppetlabs-apache'' \<and>
   TargetFolder (apache ''1.0.0'') = Inr ''/env/modules/apache'' \<and>
   spec_TargetFolder ((apache ''1.0.0'')\<lparr>envRoot := ''.''\<rparr>) = ''./modules/puppetlabs-apache'' \<and>
   TargetFolder ((apache ''1.0.0'')\<lparr>envRoot := ''.''\<rparr>) = Inr ''modules/apache''"
  by code_simp

section \<open>The downloader worker\<close>

declare retry_loop.simps [simp del]

lemma retry_loop_2: "retry_loop I 2 d m w = Inr ([], d, m, w)"
  by (subst retry_loop.simps) (simp add: maxTries_def)

lemma retry_loop_1:
  "retry_loop I (Suc 0) d m w =
     (if error d \<noteq> None \<and> retryable d then
        (case if_Download I m w of
           Inl f \<Rightarrow> Inl f
         | Inr (d1, m1, w1) \<Rightarrow>
             Inr ([Emit \<lparr>err = d, skipped = False, willRetry = True, res_m = m\<rparr>, Sleep 5, DownloadCall],
                  d1, m1, w1))
      else Inr ([], d, m, w))"
  by (subst retry_loop.simps)
    (auto simp: maxTries_def retryDelay_def retry_loop_2 numeral_2_eq_2 [symmetric] split: sum.splits prod.splits)

lemma retry_loop_0:
  "retry_loop I 0 d m w =
     (if error d \<noteq> None \<and> retryable d then
        (case if_Download I m w of
           Inl f \<Rightarrow> Inl f
         | Inr (d1, m1, w1) \<Rightarrow>
             (case retry_loop I (Suc 0) d1 m1 w1 of
                Inl f \<Rightarrow> Inl f
              | Inr (acts, d2, m2, w2) \<Rightarrow>
                  Inr ([Emit \<lparr>err = d, skipped = False, willRetry = True, res_m = m\<rparr>, Sleep 5, DownloadCall]
                       @ acts, d2, m2, w2)))
      else Inr ([], d, m, w))"
  by (subst retry_loop.simps)
    (auto simp: maxTries_def retryDelay_def split: sum.splits prod.splits)

lemma spec_attempts_3:
  "(case if_Download I m w of
      Inl f \<Rightarrow> Inl f
    | Inr (derr, m1, w1) \<Rightarrow>
        (case retry_loop I 0 derr m1 w1 of
           Inl f \<Rightarrow> Inl f
         | Inr (acts, derr2, m2, w2) \<Rightarrow>
             Inr ([DownloadCall] @ acts @
                  [Emit (if error derr2 \<noteq> None
                         then \<lparr>err = derr2, skipped = False, willRetry = False, res_m = m2\<rparr>
                         else \<lparr>err = \<lparr>error = None, retryable = False\<rparr>, skipped = False,
                               willRetry = False, res_m = m2\<rparr>)], w2)))
   = spec_attempts I 3 m w"
  by (auto simp: numeral_3_eq_3 retry_loop_0 retry_loop_1 split: sum.splits prod.splits)

lemma emitted_append: "emitted (xs @ ys) = emitted xs @ emitted ys"
  by (induction xs rule: emitted.induct) auto

lemma spec_attempts_trace:
  assumes "spec_attempts I n m w = Inr (acts, w')" and "0 < n"
    and "\<forall>m w d m' w'. if_Download I m w = Inr (d, m', w') \<longrightarrow> g m' = g m"
  shows "count_list acts DownloadCall \<le> n \<and>
         count_list acts (Sleep 5) = length (filter willRetry (emitted acts)) \<and>
         Suc (length (filter willRetry (emitted acts))) = count_list acts DownloadCall \<and>
         RemoveAllCall p \<notin> set acts \<and>
         (\<exists>rs r. emitted acts = rs @ [r] \<and> \<not> willRetry r \<and>
            (\<forall>x\<in>set rs. willRetry x \<and> error (err x) \<noteq> None \<and> retryable (err x)) \<and>
            (\<forall>x\<in>set (emitted acts). \<not> skipped x \<and> g (res_m x) = g m))"
  using assms(1,2)
proof (induction n arbitrary: m w acts w')
  case 0
  then show ?case by simp
next
  case (Suc n)
  from Suc.prems(1) obtain derr m1 w1 where dl: "if_Download I m w = Inr (derr, m1, w1)"
    by (auto split: sum.splits)
  then have gm: "g m1 = g m" using assms(3) by blast
  show ?case
  proof (cases "error derr \<noteq> None \<and> retryable derr \<and> 0 < n")
    case False
    then show ?thesis using Suc.prems(1) dl gm by (auto split: if_splits)
  next
    case True
    with Suc.prems(1) dl obtain acts1 where
      rec: "spec_attempts I n m1 w1 = Inr (acts1, w')" and
      acts: "acts = [DownloadCall, Emit \<lparr>err = derr, skipped = False, willRetry = True, res_m = m1\<rparr>,
                     Sleep 5] @ acts1"
      by (auto split: sum.splits)
    from Suc.IH [OF rec] True obtain rs r where
      ih: "count_list acts1 DownloadCall \<le> n"
        "count_list acts1 (Sleep 5) = length (filter willRetry (emitted acts1))"
        "Suc (length (filter willRetry (emitted acts1))) = count_list acts1 DownloadCall"
        "RemoveAllCall p \<notin> set acts1"
        "emitted acts1 = rs @ [r]" "\<not> willRetry r"
        "\<forall>x\<in>set rs. willRetry x \<and> error (err x) \<noteq> None \<and> retryable (err x)"
        "\<forall>x\<in>set (emitted acts1). \<not> skipped x \<and> g (res_m x) = g m1"
      by auto
    have e: "emitted acts =
        (\<lparr>err = derr, skipped = False, willRetry = True, res_m = m1\<rparr> # rs) @ [r]"
      using acts ih(5) by simp
    have "\<forall>x\<in>set (\<lparr>err = derr, skipped = False, willRetry = True, res_m = m1\<rparr> # rs).
            willRetry x \<and> error (err x) \<noteq> None \<and> retryable (err x)"
      using ih(7) True by simp
    moreover have "\<forall>x\<in>set (emitted acts). \<not> skipped x \<and> g (res_m x) = g m"
      using ih(8) acts gm by simp
    moreover have "count_list acts DownloadCall \<le> Suc n"
      "count_list acts (Sleep 5) = length (filter willRetry (emitted acts))"
      "Suc (length (filter willRetry (emitted acts))) = count_list acts DownloadCall"
      "RemoveAllCall p \<notin> set acts"
      using ih(1-4) acts by simp_all
    ultimately show ?thesis using e ih(6) by blast
  qed
qed

lemma body_cases:
  assumes "downloadModules_body I S m w = Inr (acts, w')"
  shows "(if_IsUpToDate I m w = Inr True \<and> w' = w \<and>
          acts = [Emit \<lparr>err = \<lparr>error = None, retryable = False\<rparr>, skipped = True,
                        willRetry = False, res_m = m\<rparr>]) \<or>
         (\<exists>tf f1 acts1. if_IsUpToDate I m w = Inr False \<and> if_TargetFolder I m = Inr tf \<and>
            os_RemoveAll S tf (fsys w) = (None, f1) \<and>
            spec_attempts I 3 m (w\<lparr>fsys := f1\<rparr>) = Inr (acts1, w') \<and>
            acts = RemoveAllCall tf # acts1)"
proof (cases "if_IsUpToDate I m w")
  case (Inl f)
  then show ?thesis using assms by (simp add: downloadModules_body_def)
next
  case (Inr b)
  show ?thesis
  proof (cases b)
    case True
    then show ?thesis using assms Inr by (auto simp: downloadModules_body_def)
  next
    case False
    from assms Inr False obtain tf f1 where
      tf: "if_TargetFolder I m = Inr tf" and rm: "os_RemoveAll S tf (fsys w) = (None, f1)"
      by (auto simp: downloadModules_body_def split: sum.splits option.splits prod.splits)
    have "downloadModules_body I S m w =
        (case spec_attempts I 3 m (w\<lparr>fsys := f1\<rparr>) of
           Inl f \<Rightarrow> Inl f | Inr (acts1, w1) \<Rightarrow> Inr (RemoveAllCall tf # acts1, w1))"
      using Inr False tf rm
      unfolding downloadModules_body_def spec_attempts_3 [symmetric]
      by (auto split: sum.splits prod.splits)
    then show ?thesis using assms Inr False tf rm by (auto split: sum.splits)
  qed
qed

text \<open>
  C5. For every module a worker receives, \<open>Download\<close> is called at most three times,
  a sleep of 5 seconds goes with each will-retry result, there is one will-retry
  result fewer than calls, and exactly one result is not a will-retry. When the
  module is not up to date and its folder is removed, the worker does what the
  specification's wording does with three attempts.
\<close>

theorem worker_retry_policy:
  "(if_IsUpToDate I m w = Inr False \<and> if_TargetFolder I m = Inr tf \<and>
    os_RemoveAll S tf (fsys w) = (None, f1) \<longrightarrow>
    downloadModules_body I S m w =
      (case spec_attempts I 3 m (w\<lparr>fsys := f1\<rparr>) of
         Inl f \<Rightarrow> Inl f
       | Inr (acts, w') \<Rightarrow> Inr (RemoveAllCall tf # acts, w'))) \<and>
   (\<forall>acts w'. downloadModules_body I S m w = Inr (acts, w') \<longrightarrow>
      count_list acts DownloadCall \<le> 3 \<and>
      count_list acts (Sleep 5) = length (filter willRetry (emitted acts)) \<and>
      length (filter willRetry (emitted acts)) = count_list acts DownloadCall - 1 \<and>
      length (filter (\<lambda>r. \<not> willRetry r) (emitted acts)) = 1)"
proof (intro conjI allI impI)
  assume a: "if_IsUpToDate I m w = Inr False \<and> if_TargetFolder I m = Inr tf \<and>
    os_RemoveAll S tf (fsys w) = (None, f1)"
  then show "downloadModules_body I S m w =
           (case spec_attempts I 3 m (w\<lparr>fsys := f1\<rparr>) of
              Inl f \<Rightarrow> Inl f
            | Inr (acts, w') \<Rightarrow> Inr (RemoveAllCall tf # acts, w'))"
    unfolding downloadModules_body_def spec_attempts_3 [symmetric]
    by (auto split: sum.splits prod.splits)
next
  fix acts w'
  assume b: "downloadModules_body I S m w = Inr (acts, w')"
  have "count_list acts DownloadCall \<le> 3 \<and>
      count_list acts (Sleep 5) = length (filter willRetry (emitted acts)) \<and>
      length (filter willRetry (emitted acts)) = count_list acts DownloadCall - 1 \<and>
      length (filter (\<lambda>r. \<not> willRetry r) (emitted acts)) = 1"
    using body_cases [OF b]
  proof (elim disjE exE conjE)
    assume "acts = [Emit \<lparr>err = \<lparr>error = None, retryable = False\<rparr>, skipped = True,
                        willRetry = False, res_m = m\<rparr>]"
    then show ?thesis by simp
  next
    fix tf' f1' acts1
    assume sp: "spec_attempts I 3 m (w\<lparr>fsys := f1'\<rparr>) = Inr (acts1, w')"
      and acts: "acts = RemoveAllCall tf' # acts1"
    from spec_attempts_trace [OF sp, where g = "\<lambda>_. ()" and p = tf'] obtain rs r where
      t: "count_list acts1 DownloadCall \<le> 3"
        "count_list acts1 (Sleep 5) = length (filter willRetry (emitted acts1))"
        "Suc (length (filter willRetry (emitted acts1))) = count_list acts1 DownloadCall"
        "emitted acts1 = rs @ [r]" "\<not> willRetry r" "\<forall>x\<in>set rs. willRetry x"
      by auto
    have "filter (\<lambda>r. \<not> willRetry r) rs = []" using t(6) by (simp add: filter_empty_conv)
    then have "length (filter (\<lambda>r. \<not> willRetry r) (emitted acts)) = 1"
      using acts t(4,5) by simp
    moreover have "length (filter willRetry (emitted acts)) = count_list acts DownloadCall - 1"
      using t(3) acts by simp
    ultimately show ?thesis using t(1,2) acts by simp
  qed
  then show "count_list acts DownloadCall \<le> 3"
    and "count_list acts (Sleep 5) = length (filter willRetry (emitted acts))"
    and "length (filter willRetry (emitted acts)) = count_list acts DownloadCall - 1"
    and "length (filter (\<lambda>r. \<not> willRetry r) (emitted acts)) = 1"
    by simp_all
qed

theorem worker_retry_policy_witness:
  "if_IsUpToDate (github (sample_sys sample_tags)) (apache ''9.9.9'') sample_world = Inr False \<and>
   if_TargetFolder (github (sample_sys sample_tags)) (apache ''9.9.9'') = Inr ''/env/modules/apache'' \<and>
   os_RemoveAll (sample_sys sample_tags) ''/env/modules/apache'' (fsys sample_world) = (None, []) \<and>
   downloadModules_body (github (sample_sys sample_tags)) (sample_sys sample_tags)
       (apache ''9.9.9'') sample_world =
     (case spec_attempts (github (sample_sys sample_tags)) 3 (apache ''9.9.9'')
             (sample_world\<lparr>fsys := []\<rparr>) of
        Inl f \<Rightarrow> Inl f
      | Inr (acts, w') \<Rightarrow> Inr (RemoveAllCall ''/env/modules/apache'' # acts, w')) \<and>
   count_list (fst (projr (downloadModules_body (github (sample_sys sample_tags))
       (sample_sys sample_tags) (apache ''9.9.9'') sample_world))) DownloadCall \<le> 3 \<and>
   length (filter (\<lambda>r. \<not> willRetry r) (emitted (fst (projr (downloadModules_body
       (github (sample_sys sample_tags)) (sample_sys sample_tags) (apache ''9.9.9'')
       sample_world))))) = 1"
proof -
  let ?I = "github (sample_sys sample_tags)"
  let ?b = "downloadModules_body ?I (sample_sys sample_tags) (apache ''9.9.9'') sample_world"
  have h1: "if_IsUpToDate ?I (apache ''9.9.9'') sample_world = Inr False" by code_simp
  have h2: "if_TargetFolder ?I (apache ''9.9.9'') = Inr ''/env/modules/apache''" by code_simp
  have h3: "os_RemoveAll (sample_sys sample_tags) ''/env/modules/apache'' (fsys sample_world) = (None, [])"
    by code_simp
  have "\<not> isl ?b" by code_simp
  then have h4: "?b = Inr (fst (projr ?b), snd (projr ?b))" by (cases ?b) auto
  from worker_retry_policy [of ?I "apache ''9.9.9''" sample_world "''/env/modules/apache''"
      "sample_sys sample_tags" "[]"] h1 h2 h3 h4
  show ?thesis by blast
qed

text \<open>
  C6. For a module with a target folder \<open>tf\<close>, the worker sends a skipped result
  exactly when \<open>os.Stat\<close> finds \<open>tf\<close> and the declared version is empty or is the
  content of \<open>tf/.version\<close>; it then does nothing else: no folder is removed, and
  \<open>Download\<close> is not called.
\<close>

theorem skipped_iff_up_to_date:
  assumes "TargetFolder m = Inr tf"
  shows "((\<exists>acts w'. downloadModules_body (github S) S m w = Inr (acts, w') \<and>
             (\<exists>r\<in>set (emitted acts). skipped r)) \<longleftrightarrow>
          (os_Stat S tf (fsys w) \<and>
           (version m = [] \<or> ioutil_ReadFile S (path_Join [tf, ''.version'']) (fsys w) = Inr (version m)))) \<and>
         (os_Stat S tf (fsys w) \<and>
          (version m = [] \<or> ioutil_ReadFile S (path_Join [tf, ''.version'']) (fsys w) = Inr (version m)) \<longrightarrow>
          downloadModules_body (github S) S m w =
            Inr ([Emit \<lparr>err = \<lparr>error = None, retryable = False\<rparr>, skipped = True,
                        willRetry = False, res_m = m\<rparr>], w))"
proof -
  let ?c = "os_Stat S tf (fsys w) \<and>
     (version m = [] \<or> ioutil_ReadFile S (path_Join [tf, ''.version'']) (fsys w) = Inr (version m))"
  have up: "if_IsUpToDate (github S) m w = Inr ?c"
    using assms by (auto simp: github_def IsUpToDate_def Let_def split: sum.splits)
  have yes: "?c \<Longrightarrow> downloadModules_body (github S) S m w =
            Inr ([Emit \<lparr>err = \<lparr>error = None, retryable = False\<rparr>, skipped = True,
                        willRetry = False, res_m = m\<rparr>], w)"
    using up by (simp add: downloadModules_body_def)
  have no: "\<not> (\<exists>r\<in>set (emitted acts). skipped r)"
    if n: "\<not> ?c" and b: "downloadModules_body (github S) S m w = Inr (acts, w')" for acts w'
  proof -
    from body_cases [OF b] up n obtain tf' f1 acts1 where
      sp: "spec_attempts (github S) 3 m (w\<lparr>fsys := f1\<rparr>) = Inr (acts1, w')"
      and acts: "acts = RemoveAllCall tf' # acts1" by auto
    from spec_attempts_trace [OF sp, where g = "\<lambda>_. ()" and p = tf]
    have "\<forall>x\<in>set (emitted acts1). \<not> skipped x" by auto
    then show ?thesis using acts by simp
  qed
  show ?thesis using yes no by (cases ?c) auto
qed

theorem skipped_iff_up_to_date_witness:
  "TargetFolder (apache ''1.0.0'') = Inr ''/env/modules/apache'' \<and>
   os_Stat (sample_sys sample_tags) ''/env/modules/apache'' (fsys installed_world) \<and>
   ioutil_ReadFile (sample_sys sample_tags) (path_Join [''/env/modules/apache'', ''.version''])
     (fsys installed_world) = Inr (version (apache ''1.0.0'')) \<and>
   downloadModules_body (github (sample_sys sample_tags)) (sample_sys sample_tags)
       (apache ''1.0.0'') installed_world =
     Inr ([Emit \<lparr>err = \<lparr>error = None, retryable = False\<rparr>, skipped = True,
                 willRetry = False, res_m = apache ''1.0.0''\<rparr>], installed_world)"
proof -
  have h1: "TargetFolder (apache ''1.0.0'') = Inr ''/env/modules/apache''" by code_simp
  have h2: "os_Stat (sample_sys sample_tags) ''/env/modules/apache'' (fsys installed_world)"
    by code_simp
  have h3: "ioutil_ReadFile (sample_sys sample_tags) (path_Join [''/env/modules/apache'', ''.version''])
     (fsys installed_world) = Inr (version (apache ''1.0.0''))" by code_simp
  from skipped_iff_up_to_date [OF h1, of "sample_sys sample_tags" installed_world] h1 h2 h3
  show ?thesis by blast
qed

section \<open>The deduplicator\<close>

lemma deduplicate_from_correct:
  assumes "\<forall>m\<in>set inp. \<exists>tf. if_TargetFolder I (bind_paths I cache env m) = Inr tf"
  shows "\<exists>acts. deduplicate_from I cache env modules inp = Inr acts \<and>
           length acts = length inp \<and>
           (\<forall>i<length inp. acts ! i =
              (if (\<exists>tf. if_TargetFolder I (bind_paths I cache env (inp ! i)) = Inr tf \<and> modules tf \<noteq> None) \<or>
                  (\<exists>j<i. if_TargetFolder I (bind_paths I cache env (inp ! j)) =
                          if_TargetFolder I (bind_paths I cache env (inp ! i)))
               then ProcessedCall (bind_paths I cache env (inp ! i))
               else Send (bind_paths I cache env (inp ! i)))) \<and>
           distinct (map (if_TargetFolder I) (sent acts)) \<and>
           set (map (if_TargetFolder I) (sent acts)) =
             set (map (\<lambda>m. if_TargetFolder I (bind_paths I cache env m)) inp) - {Inr tf |tf. modules tf \<noteq> None} \<and>
           mset (sent acts) + mset (dedup_processed acts) = mset (map (bind_paths I cache env) inp)"
  using assms
proof (induction inp arbitrary: modules)
  case Nil
  then show ?case by simp
next
  case (Cons m0 inp)
  let ?B = "bind_paths I cache env"
  let ?TF = "\<lambda>m. if_TargetFolder I (?B m)"
  from Cons.prems obtain tf0 where tf0: "?TF m0 = Inr tf0" by auto
  have rest: "\<forall>m\<in>set inp. \<exists>tf. ?TF m = Inr tf" using Cons.prems by simp
  define modules' where "modules' = (if modules tf0 \<noteq> None then modules else modules(tf0 \<mapsto> True))"
  from Cons.IH [OF rest, of modules'] obtain acts where
    ih: "deduplicate_from I cache env modules' inp = Inr acts" "length acts = length inp"
      "\<forall>i<length inp. acts ! i =
          (if (\<exists>tf. ?TF (inp ! i) = Inr tf \<and> modules' tf \<noteq> None) \<or> (\<exists>j<i. ?TF (inp ! j) = ?TF (inp ! i))
           then ProcessedCall (?B (inp ! i)) else Send (?B (inp ! i)))"
      "distinct (map (if_TargetFolder I) (sent acts))"
      "set (map (if_TargetFolder I) (sent acts)) = set (map ?TF inp) - {Inr tf |tf. modules' tf \<noteq> None}"
      "mset (sent acts) + mset (dedup_processed acts) = mset (map ?B inp)"
    by blast
  define a0 where "a0 = (if modules tf0 \<noteq> None then ProcessedCall (?B m0) else Send (?B m0))"
  have run: "deduplicate_from I cache env modules (m0 # inp) = Inr (a0 # acts)"
  proof (cases "modules tf0 = None")
    case True
    then show ?thesis using tf0 ih(1) by (simp add: Let_def bind_paths_def modules'_def a0_def)
  next
    case False
    then show ?thesis using tf0 ih(1) by (simp add: Let_def bind_paths_def modules'_def a0_def)
  qed
  have idx: "(a0 # acts) ! i =
          (if (\<exists>tf. ?TF ((m0 # inp) ! i) = Inr tf \<and> modules tf \<noteq> None) \<or>
              (\<exists>j<i. ?TF ((m0 # inp) ! j) = ?TF ((m0 # inp) ! i))
           then ProcessedCall (?B ((m0 # inp) ! i)) else Send (?B ((m0 # inp) ! i)))"
    if "i < length (m0 # inp)" for i
  proof (cases i)
    case 0
    then show ?thesis using tf0 by (simp add: a0_def)
  next
    case (Suc k)
    then have k: "k < length inp" using that by simp
    from rest k obtain tfk where tfk: "?TF (inp ! k) = Inr tfk" by (metis nth_mem)
    have "(modules' tfk \<noteq> None \<or> (\<exists>j<k. ?TF (inp ! j) = ?TF (inp ! k))) \<longleftrightarrow>
          (modules tfk \<noteq> None \<or> (\<exists>j<Suc k. ?TF ((m0 # inp) ! j) = ?TF (inp ! k)))"
    proof -
      have "(\<exists>j<Suc k. ?TF ((m0 # inp) ! j) = ?TF (inp ! k)) \<longleftrightarrow>
            (?TF m0 = ?TF (inp ! k) \<or> (\<exists>j<k. ?TF (inp ! j) = ?TF (inp ! k)))"
        by (auto simp: less_Suc_eq_0_disj)
      then show ?thesis using tf0 tfk by (auto simp: modules'_def)
    qed
    then show ?thesis using ih(3) k Suc tfk by simp
  qed
  have dist: "distinct (map (if_TargetFolder I) (sent (a0 # acts)))"
    using ih(4,5) tf0 by (auto simp: a0_def modules'_def)
  have st: "set (map (if_TargetFolder I) (sent (a0 # acts))) =
      set (map ?TF (m0 # inp)) - {Inr tf |tf. modules tf \<noteq> None}"
    using ih(5) tf0 by (auto simp: a0_def modules'_def split: if_splits)
  have ms: "mset (sent (a0 # acts)) + mset (dedup_processed (a0 # acts)) = mset (map ?B (m0 # inp))"
    using ih(6) by (simp add: a0_def)
  show ?case using run ih(2) idx dist st ms by (intro exI [of _ "a0 # acts"]) simp
qed

text \<open>
  C4. When every declaration has a target folder (after its environment root and
  cache folder are set), the deduplicator handles each one: it sends a declaration
  on exactly when no earlier declaration has its target folder, and calls
  \<open>Processed\<close> on it otherwise, without sending it. The declarations sent have
  pairwise different target folders, and every target folder is that of one of them.
\<close>

theorem deduplicate_first_wins:
  assumes "\<forall>m\<in>set inp. \<exists>tf. if_TargetFolder I (bind_paths I cache env m) = Inr tf"
  shows "\<exists>acts. deduplicate I inp cache env = Inr acts \<and>
           length acts = length inp \<and>
           (\<forall>i<length inp. acts ! i =
              (if \<exists>j<i. if_TargetFolder I (bind_paths I cache env (inp ! j)) =
                         if_TargetFolder I (bind_paths I cache env (inp ! i))
               then ProcessedCall (bind_paths I cache env (inp ! i))
               else Send (bind_paths I cache env (inp ! i)))) \<and>
           distinct (map (if_TargetFolder I) (sent acts)) \<and>
           set (map (if_TargetFolder I) (sent acts)) =
             set (map (\<lambda>m. if_TargetFolder I (bind_paths I cache env m)) inp)"
proof -
  from deduplicate_from_correct [OF assms, of Map.empty]
  have "\<exists>acts. deduplicate I inp cache env = Inr acts \<and>
           length acts = length inp \<and>
           (\<forall>i<length inp. acts ! i =
              (if \<exists>j<i. if_TargetFolder I (bind_paths I cache env (inp ! j)) =
                         if_TargetFolder I (bind_paths I cache env (inp ! i))
               then ProcessedCall (bind_paths I cache env (inp ! i))
               else Send (bind_paths I cache env (inp ! i)))) \<and>
           distinct (map (if_TargetFolder I) (sent acts)) \<and>
           set (map (if_TargetFolder I) (sent acts)) =
             set (map (\<lambda>m. if_TargetFolder I (bind_paths I cache env m)) inp) \<and>
           mset (sent acts) + mset (dedup_processed acts) = mset (map (bind_paths I cache env) inp)"
    by (simp add: deduplicate_def split del: if_split)
  then obtain acts where
    "deduplicate I inp cache env = Inr acts" "length acts = length inp"
    "\<forall>i<length inp. acts ! i =
              (if \<exists>j<i. if_TargetFolder I (bind_paths I cache env (inp ! j)) =
                         if_TargetFolder I (bind_paths I cache env (inp ! i))
               then ProcessedCall (bind_paths I cache env (inp ! i))
               else Send (bind_paths I cache env (inp ! i)))"
    "distinct (map (if_TargetFolder I) (sent acts))"
    "set (map (if_TargetFolder I) (sent acts)) =
             set (map (\<lambda>m. if_TargetFolder I (bind_paths I cache env m)) inp)"
    by (elim exE conjE)
  then show ?thesis by (intro exI [of _ acts] conjI)
qed

theorem deduplicate_first_wins_witness:
  "if_TargetFolder (github (sample_sys sample_tags))
     (bind_paths (github (sample_sys sample_tags)) sample_cache ''/env'' (apache ''1.0.0'')) =
     Inr ''/env/modules/apache'' \<and>
   if_TargetFolder (github (sample_sys sample_tags))
     (bind_paths (github (sample_sys sample_tags)) sample_cache ''/env'' apache_again) =
     Inr ''/env/modules/apache'' \<and>
   if_TargetFolder (github (sample_sys sample_tags))
     (bind_paths (github (sample_sys sample_tags)) sample_cache ''/env'' stdlib) =
     Inr ''/env/modules/stdlib'' \<and>
   (\<exists>acts. deduplicate (github (sample_sys sample_tags)) [apache ''1.0.0'', apache_again, stdlib]
              sample_cache ''/env'' = Inr acts \<and>
      length acts = 3 \<and>
      distinct (map (if_TargetFolder (github (sample_sys sample_tags))) (sent acts)))"
proof -
  let ?I = "github (sample_sys sample_tags)"
  have h1: "if_TargetFolder ?I (bind_paths ?I sample_cache ''/env'' (apache ''1.0.0'')) =
     Inr ''/env/modules/apache''" by code_simp
  have h2: "if_TargetFolder ?I (bind_paths ?I sample_cache ''/env'' apache_again) =
     Inr ''/env/modules/apache''" by code_simp
  have h3: "if_TargetFolder ?I (bind_paths ?I sample_cache ''/env'' stdlib) =
     Inr ''/env/modules/stdlib''" by code_simp
  have h: "\<forall>m\<in>set [apache ''1.0.0'', apache_again, stdlib].
             \<exists>tf. if_TargetFolder ?I (bind_paths ?I sample_cache ''/env'' m) = Inr tf"
    using h1 h2 h3 by simp
  from deduplicate_first_wins [OF h] obtain acts where
    "deduplicate ?I [apache ''1.0.0'', apache_again, stdlib] sample_cache ''/env'' = Inr acts"
    "length acts = length [apache ''1.0.0'', apache_again, stdlib]"
    "distinct (map (if_TargetFolder ?I) (sent acts))"
    by blast
  then show ?thesis using h1 h2 h3 by simp
qed

section \<open>The aggregator\<close>

text \<open>
  What a run of the aggregator adds: a call of \<open>Processed\<close> for every result but
  the retryable will-retry errors, and one failure for every other error.
\<close>

lemma parseResults_from_effect:
  "parseResults_from I deps N rs a = Inr a' \<Longrightarrow>
   Processed_calls a' = Processed_calls a @
     map res_m (filter (\<lambda>r. \<not> (error (err r) \<noteq> None \<and> retryable (err r) \<and> willRetry r)) rs) \<and>
   downloadErrors a' = downloadErrors a +
     word_of_nat (length (filter (\<lambda>r. error (err r) \<noteq> None \<and> \<not> (retryable (err r) \<and> willRetry r)) rs))"
proof (induction rs arbitrary: a)
  case Nil
  then show ?case by simp
next
  case (Cons r rs)
  show ?case
  proof (cases "error (err r)")
    case (Some e)
    show ?thesis
    proof (cases "retryable (err r) \<and> willRetry r")
      case True
      with Cons.prems Some have
        "parseResults_from I deps N rs
           (a\<lparr>log_lines := log_lines a @
                [''failed downloading '' @ if_Name I (res_m r) @ '': '' @ Error_text e @ ''... Retrying'']\<rparr>) = Inr a'"
        by simp
      from Cons.IH [OF this] show ?thesis using Some True by simp
    next
      case False
      with Cons.prems Some have
        "parseResults_from I deps N rs
           (a\<lparr>log_lines := log_lines a @
                [''failed downloading '' @ if_Name I (res_m r) @ '': '' @ Error_text e @ ''. Giving up!''],
              downloadErrors := downloadErrors a + 1,
              Processed_calls := Processed_calls a @ [res_m r]\<rparr>) = Inr a'"
        by auto
      from Cons.IH [OF this] show ?thesis using Some False by auto
    qed
  next
    case None
    with Cons.prems obtain a2 where
      a2: "parseResults_from I deps N rs (a2\<lparr>Processed_calls := Processed_calls a2 @ [res_m r]\<rparr>) = Inr a'"
      and p: "Processed_calls a2 = Processed_calls a" and d: "downloadErrors a2 = downloadErrors a"
      by (auto simp: Let_def split: sum.splits if_splits option.splits)
    from Cons.IH [OF a2] show ?thesis using None p d by simp
  qed
qed

text \<open>
  The results of one module: will-retry results, each a retryable error, then one
  result that is not a will-retry; \<open>g\<close> is anything that \<open>Download\<close> keeps.
\<close>

lemma run_shape:
  assumes "downloadModules_body I S m w = Inr (acts, w')"
    and "\<forall>m w d m' w'. if_Download I m w = Inr (d, m', w') \<longrightarrow> g m' = g m"
  shows "\<exists>rs r. emitted acts = rs @ [r] \<and> \<not> willRetry r \<and>
           (\<forall>x\<in>set rs. willRetry x \<and> error (err x) \<noteq> None \<and> retryable (err x)) \<and>
           (\<forall>x\<in>set (emitted acts). g (res_m x) = g m)"
  using body_cases [OF assms(1)]
proof (elim disjE exE conjE)
  assume "acts = [Emit \<lparr>err = \<lparr>error = None, retryable = False\<rparr>, skipped = True,
                        willRetry = False, res_m = m\<rparr>]"
  then show ?thesis by simp
next
  fix tf f1 acts1
  assume sp: "spec_attempts I 3 m (w\<lparr>fsys := f1\<rparr>) = Inr (acts1, w')"
    and acts: "acts = RemoveAllCall tf # acts1"
  from spec_attempts_trace [OF sp _ assms(2), where p = tf] acts
  show ?thesis by auto
qed

lemma one_run:
  assumes "\<not> isl (downloadModules_body I S m w)"
    and "\<forall>m w d m' w'. if_Download I m w = Inr (d, m', w') \<longrightarrow> g m' = g m"
  shows "(\<forall>r\<in>set (worker_results I S m w). willRetry r \<longrightarrow> error (err r) \<noteq> None \<and> retryable (err r)) \<and>
         map (\<lambda>r. g (res_m r)) (filter (\<lambda>r. \<not> willRetry r) (worker_results I S m w)) = [g m] \<and>
         length (filter terminal_failure (worker_results I S m w)) =
           (if failed_terminally I S m w then 1 else 0)"
proof -
  from assms(1) obtain acts w' where b: "downloadModules_body I S m w = Inr (acts, w')"
    by (cases "downloadModules_body I S m w") auto
  then have wr: "worker_results I S m w = emitted acts" by (simp add: worker_results_def)
  from run_shape [OF b assms(2)] obtain rs r where
    s: "emitted acts = rs @ [r]" "\<not> willRetry r"
      "\<forall>x\<in>set rs. willRetry x \<and> error (err x) \<noteq> None \<and> retryable (err x)"
      "\<forall>x\<in>set (emitted acts). g (res_m x) = g m"
    by blast
  have f1: "filter (\<lambda>r. \<not> willRetry r) rs = []" using s(3) by (simp add: filter_empty_conv)
  have f2: "filter terminal_failure rs = []"
    using s(3) by (simp add: filter_empty_conv terminal_failure_def)
  have "g (res_m r) = g m" using s(1,4) by simp
  then have 2: "map (\<lambda>r. g (res_m r)) (filter (\<lambda>r. \<not> willRetry r) (worker_results I S m w)) = [g m]"
    using wr s(1,2) f1 by simp
  have 3: "length (filter terminal_failure (worker_results I S m w)) =
           (if failed_terminally I S m w then 1 else 0)"
    using wr s(1) f2 by (simp add: failed_terminally_def)
  have 1: "\<forall>r\<in>set (worker_results I S m w). willRetry r \<longrightarrow> error (err r) \<noteq> None \<and> retryable (err r)"
    using wr s(1,2,3) by auto
  show ?thesis using 1 2 3 by simp
qed

lemma all_runs:
  assumes "\<forall>(m, w)\<in>set runs. \<not> isl (downloadModules_body I S m w)"
    and "\<forall>m w d m' w'. if_Download I m w = Inr (d, m', w') \<longrightarrow> g m' = g m"
  shows "(\<forall>r\<in>set (concat (map (\<lambda>(m, w). worker_results I S m w) runs)).
            willRetry r \<longrightarrow> error (err r) \<noteq> None \<and> retryable (err r)) \<and>
         map (\<lambda>r. g (res_m r))
           (filter (\<lambda>r. \<not> willRetry r) (concat (map (\<lambda>(m, w). worker_results I S m w) runs))) =
           map (\<lambda>(m, w). g m) runs \<and>
         length (filter terminal_failure (concat (map (\<lambda>(m, w). worker_results I S m w) runs))) =
           length (filter (\<lambda>(m, w). failed_terminally I S m w) runs)"
  using assms(1)
proof (induction runs)
  case Nil
  then show ?case by simp
next
  case (Cons x runs)
  obtain m w where x: "x = (m, w)" by (cases x)
  from Cons.prems x have ok: "\<not> isl (downloadModules_body I S m w)" by simp
  from Cons.prems have rest: "\<forall>(m, w)\<in>set runs. \<not> isl (downloadModules_body I S m w)" by simp
  from one_run [OF ok assms(2)] Cons.IH [OF rest] show ?case unfolding x by auto
qed

lemma deduplicate_from_mset:
  "deduplicate_from I cache env modules inp = Inr acts \<Longrightarrow>
   mset (sent acts) + mset (dedup_processed acts) = mset (map (bind_paths I cache env) inp)"
proof (induction inp arbitrary: modules acts)
  case Nil
  then show ?case by simp
next
  case (Cons m0 inp)
  from Cons.prems obtain tf where tf: "if_TargetFolder I (bind_paths I cache env m0) = Inr tf"
    by (auto simp: Let_def bind_paths_def split: sum.splits)
  show ?case
  proof (cases "modules tf = None")
    case True
    with Cons.prems tf obtain acts1 where
      "deduplicate_from I cache env (modules(tf \<mapsto> True)) inp = Inr acts1"
      "acts = Send (bind_paths I cache env m0) # acts1"
      by (auto simp: Let_def bind_paths_def split: sum.splits)
    then show ?thesis using Cons.IH by fastforce
  next
    case False
    with Cons.prems tf obtain acts1 where
      "deduplicate_from I cache env modules inp = Inr acts1"
      "acts = ProcessedCall (bind_paths I cache env m0) # acts1"
      by (auto simp: Let_def bind_paths_def split: sum.splits)
    then show ?thesis using Cons.IH by fastforce
  qed
qed

text \<open>
  C7, as the code has it. For a skipped result (it has no error) the aggregator
  writes no log line, leaves the failure count alone and calls \<open>Processed\<close> once.
  With the discovery of dependencies off it does nothing else. With it on, it
  builds the metadata file of \<open>tf/metadata.json\<close>, \<open>tf\<close> being the target folder,
  and when that is not nil it adds one to the pending work and sends the file to
  the module-file channel, as it does for a success.
\<close>

theorem skipped_result_aggregated:
  assumes "skipped res" and "error (err res) = None"
    and "downloadDeps \<longrightarrow> if_TargetFolder I (res_m res) = Inr tf"
  shows "parseResults_from I downloadDeps NewMetadataFile (res # results) a =
           parseResults_from I downloadDeps NewMetadataFile results
             (case (if downloadDeps then NewMetadataFile (path_Join [tf, ''metadata.json'']) else None) of
                None \<Rightarrow> a\<lparr>Processed_calls := Processed_calls a @ [res_m res]\<rparr>
              | Some mf \<Rightarrow>
                  a\<lparr>wg_Add := wg_Add a + 1, metadataFiles := metadataFiles a @ [mf],
                    Processed_calls := Processed_calls a @ [res_m res]\<rparr>)"
  using assms by (auto simp: Let_def split: option.splits)

theorem skipped_result_aggregated_witness:
  "skipped skipped_result \<and> error (err skipped_result) = None \<and>
   if_TargetFolder sample_github (res_m skipped_result) = Inr ''/env/modules/apache'' \<and>
   parseResults sample_github [skipped_result] True (\<lambda>p. Some p) =
     Inr \<lparr>downloadErrors = 0, log_lines = [], wg_Add = 1,
          metadataFiles = [''/env/modules/apache/metadata.json''],
          Processed_calls = [apache ''1.0.0'']\<rparr>"
proof -
  have h1: "skipped skipped_result" by (simp add: skipped_result_def)
  have h2: "error (err skipped_result) = None" by (simp add: skipped_result_def)
  have h3: "if_TargetFolder sample_github (res_m skipped_result) = Inr ''/env/modules/apache''"
    by code_simp
  have h4: "path_Join [''/env/modules/apache'', ''metadata.json''] = ''/env/modules/apache/metadata.json''"
    by code_simp
  have r: "res_m skipped_result = apache ''1.0.0''" by (simp add: skipped_result_def)
  from skipped_result_aggregated [OF h1 h2, of True sample_github "''/env/modules/apache''"
      "\<lambda>p. Some p" "[]"
      "\<lparr>downloadErrors = 0, log_lines = [], wg_Add = 0, metadataFiles = [], Processed_calls = []\<rparr>"] h3
  have "parseResults sample_github [skipped_result] True (\<lambda>p. Some p) =
     Inr \<lparr>downloadErrors = 0, log_lines = [], wg_Add = 1,
          metadataFiles = [''/env/modules/apache/metadata.json''],
          Processed_calls = [apache ''1.0.0'']\<rparr>"
    by (simp add: parseResults_def h4 r)
  then show ?thesis using h1 h2 h3 by simp
qed

text \<open>
  The claim as it is written fails: with the discovery of dependencies on and a
  metadata file that opens, a skipped result adds pending work and a metadata file.
\<close>

theorem skipped_result_enqueues_metadata:
  "parseResults sample_github [skipped_result] True (\<lambda>p. Some p) =
     Inr \<lparr>downloadErrors = 0, log_lines = [], wg_Add = 1,
          metadataFiles = [''/env/modules/apache/metadata.json''],
          Processed_calls = [apache ''1.0.0'']\<rparr>"
  by code_simp



















text \<open>
  One worker that receives the modules \<open>c\<close> one after the other is a case of the
  runs that the statements about the whole pipeline speak of: each module is run in
  the world the one before has left.
\<close>

lemma downloadModules_runs:
  "downloadModules I S c w = Inr (acts, w') \<Longrightarrow>
   \<exists>ws. length ws = length c \<and>
        (\<forall>(m, w)\<in>set (zip c ws). \<not> isl (downloadModules_body I S m w)) \<and>
        emitted acts = concat (map (\<lambda>(m, w). worker_results I S m w) (zip c ws))"
proof (induction c arbitrary: w acts)
  case Nil
  then show ?case by simp
next
  case (Cons m c)
  from Cons.prems obtain acts0 w1 acts1 where
    b: "downloadModules_body I S m w = Inr (acts0, w1)" and
    r: "downloadModules I S c w1 = Inr (acts1, w')" and
    a: "acts = acts0 @ acts1"
    by (auto split: sum.splits prod.splits)
  from Cons.IH [OF r] obtain ws where
    ws: "length ws = length c"
      "\<forall>(m, w)\<in>set (zip c ws). \<not> isl (downloadModules_body I S m w)"
      "emitted acts1 = concat (map (\<lambda>(m, w). worker_results I S m w) (zip c ws))"
    by blast
  have "emitted acts = concat (map (\<lambda>(m, w). worker_results I S m w) (zip (m # c) (w # ws)))"
    using a b ws(3) by (simp add: emitted_append worker_results_def)
  moreover have "\<forall>(m, w)\<in>set (zip (m # c) (w # ws)). \<not> isl (downloadModules_body I S m w)"
    using b ws(2) by simp
  moreover have "length (w # ws) = length (m # c)" using ws(1) by simp
  ultimately show ?case by blast
qed

section \<open>Every declaration is marked processed once\<close>

text \<open>\<open>Download\<close> changes nothing of a module but its version.\<close>

lemma Download_module:
  assumes "Download S m w = Inr (d, m', w')"
  shows "m' = m\<lparr>version := version m'\<rparr>"
proof -
  from assms obtain r m1 w1 where u: "downloadURL S m w = Inr (r, m1, w1)"
    by (cases "downloadURL S m w") (auto simp: Download_def)
  have "m' = m1"
    using assms u
    by (auto simp: Download_def Let_def split: sum.splits option.splits prod.splits if_splits)
  then show ?thesis using downloadURL_frame [OF u] by simp
qed

text \<open>The setters and \<open>Download\<close> of the archive module leave the callback \<open>processed\<close> alone.\<close>

lemma github_keeps_processed:
  "(\<forall>s m. if_Processed (github S) (if_SetEnvRoot (github S) s m) = if_Processed (github S) m) \<and>
   (\<forall>s m. if_Processed (github S) (if_SetCacheFolder (github S) s m) = if_Processed (github S) m) \<and>
   (\<forall>m w d m' w'. if_Download (github S) m w = Inr (d, m', w') \<longrightarrow>
      if_Processed (github S) m' = if_Processed (github S) m)"
proof -
  have d: "processed m' = processed m" if "Download S m w = Inr (d, m', w')" for m w d m' w'
  proof -
    from Download_module [OF that] have "processed m' = processed (m\<lparr>version := version m'\<rparr>)"
      by simp
    then show ?thesis by simp
  qed
  show ?thesis
    using d by (auto simp: github_def Processed_def SetEnvRoot_def SetCacheFolder_def)
qed

text \<open>
  C3. Let the setters and \<open>Download\<close> of the interface leave the callback of
  \<open>Processed\<close> alone, as those of the archive module do. The declarations \<open>inp\<close>
  pass the deduplicator; \<open>runs\<close> lists the ones it sends on, each with the world
  its worker receives it in, none ending the process; the aggregator gets the
  results in any order. Then the callbacks called, by the deduplicator and by the
  aggregator together, are the callbacks of the declarations, each as often as it
  was declared: every declaration is marked processed exactly once. The aggregator
  calls \<open>Processed\<close> for the results that are not will-retry results and for no
  other, and every declaration sent on has exactly one such result.
\<close>

theorem processed_exactly_once:
  assumes "\<forall>s m. if_Processed I (if_SetEnvRoot I s m) = if_Processed I m"
    and "\<forall>s m. if_Processed I (if_SetCacheFolder I s m) = if_Processed I m"
    and "\<forall>m w d m' w'. if_Download I m w = Inr (d, m', w') \<longrightarrow> if_Processed I m' = if_Processed I m"
    and "deduplicate I inp cache env = Inr dacts"
    and "map fst runs = sent dacts"
    and "\<forall>(m, w)\<in>set runs. \<not> isl (downloadModules_body I S m w)"
    and "mset rs = mset (concat (map (\<lambda>(m, w). worker_results I S m w) runs))"
    and "parseResults I rs downloadDeps NewMetadataFile = Inr a"
  shows "mset (map (if_Processed I) (dedup_processed dacts @ Processed_calls a)) =
           mset (map (if_Processed I) inp) \<and>
         Processed_calls a = map res_m (filter (\<lambda>r. \<not> willRetry r) rs) \<and>
         (\<forall>(m, w)\<in>set runs. length (filter (\<lambda>r. \<not> willRetry r) (worker_results I S m w)) = 1)"
proof -
  let ?all = "concat (map (\<lambda>(m, w). worker_results I S m w) runs)"
  let ?tok = "if_Processed I"
  from all_runs [OF assms(6) assms(3)] have
    fmt: "\<forall>r\<in>set ?all. willRetry r \<longrightarrow> error (err r) \<noteq> None \<and> retryable (err r)" and
    toks: "map (\<lambda>r. ?tok (res_m r)) (filter (\<lambda>r. \<not> willRetry r) ?all) = map (\<lambda>(m, w). ?tok m) runs"
    by simp_all
  have sets: "set rs = set ?all" using assms(7) by (rule mset_eq_setD)
  have fmt': "\<forall>r\<in>set rs. willRetry r \<longrightarrow> error (err r) \<noteq> None \<and> retryable (err r)"
    using fmt unfolding sets .
  have same: "filter (\<lambda>r. \<not> (error (err r) \<noteq> None \<and> retryable (err r) \<and> willRetry r)) rs =
              filter (\<lambda>r. \<not> willRetry r) rs"
    using fmt' by (intro filter_cong) auto
  from parseResults_from_effect [OF assms(8) [unfolded parseResults_def]] same
  have calls: "Processed_calls a = map res_m (filter (\<lambda>r. \<not> willRetry r) rs)" by simp
  have "mset (filter (\<lambda>r. \<not> willRetry r) rs) = mset (filter (\<lambda>r. \<not> willRetry r) ?all)"
    using assms(7) by (simp only: mset_filter)
  then have "mset (map (\<lambda>r. ?tok (res_m r)) (filter (\<lambda>r. \<not> willRetry r) rs)) =
             mset (map (\<lambda>r. ?tok (res_m r)) (filter (\<lambda>r. \<not> willRetry r) ?all))"
    by (simp only: mset_map)
  then have e2: "mset (map (\<lambda>r. ?tok (res_m r)) (filter (\<lambda>r. \<not> willRetry r) rs)) =
             mset (map (\<lambda>(m, w). ?tok m) runs)"
    by (simp only: toks)
  have e1: "map ?tok (Processed_calls a) = map (\<lambda>r. ?tok (res_m r)) (filter (\<lambda>r. \<not> willRetry r) rs)"
    using calls by (simp add: comp_def)
  have e3: "map (\<lambda>(m, w). ?tok m) runs = map ?tok (map fst runs)"
    by (simp add: case_prod_unfold comp_def)
  have agg: "mset (map ?tok (Processed_calls a)) = mset (map ?tok (sent dacts))"
    using e2 by (simp only: e1 e3 assms(5))
  have bind: "?tok (bind_paths I cache env m) = ?tok m" for m
    using assms(1,2) by (simp add: bind_paths_def)
  from deduplicate_from_mset [OF assms(4) [unfolded deduplicate_def]]
  have "mset (map ?tok (sent dacts)) + mset (map ?tok (dedup_processed dacts)) =
        mset (map ?tok (map (bind_paths I cache env) inp))"
    by (metis image_mset_union mset_map)
  then have ded: "mset (map ?tok (sent dacts)) + mset (map ?tok (dedup_processed dacts)) =
        mset (map ?tok inp)"
    using bind by (simp add: comp_def)
  have 1: "mset (map ?tok (dedup_processed dacts @ Processed_calls a)) = mset (map ?tok inp)"
    using agg ded by (simp add: add.commute)
  have 3: "\<forall>(m, w)\<in>set runs. length (filter (\<lambda>r. \<not> willRetry r) (worker_results I S m w)) = 1"
  proof (clarify)
    fix m w assume "(m, w) \<in> set runs"
    with assms(6) have "\<not> isl (downloadModules_body I S m w)" by auto
    from one_run [OF this assms(3)]
    have "map (\<lambda>r. ?tok (res_m r)) (filter (\<lambda>r. \<not> willRetry r) (worker_results I S m w)) = [?tok m]"
      by simp
    then have "length (map (\<lambda>r. ?tok (res_m r)) (filter (\<lambda>r. \<not> willRetry r) (worker_results I S m w))) = 1"
      by simp
    then show "length (filter (\<lambda>r. \<not> willRetry r) (worker_results I S m w)) = 1" by simp
  qed
  show ?thesis using 1 calls 3 by simp
qed

theorem processed_exactly_once_witness:
  "mset (map (if_Processed sample_github) (dedup_processed sample_dedup @ Processed_calls sample_aggregate)) =
     mset (map (if_Processed sample_github) sample_decls) \<and>
   map (if_Processed sample_github) (dedup_processed sample_dedup) = [1] \<and>
   map (if_Processed sample_github) (Processed_calls sample_aggregate) = [0, 2] \<and>
   Processed_calls sample_aggregate = map res_m (filter (\<lambda>r. \<not> willRetry r) sample_results)"
proof -
  have k: "(\<forall>s m. if_Processed sample_github (if_SetEnvRoot sample_github s m) =
                 if_Processed sample_github m) \<and>
           (\<forall>s m. if_Processed sample_github (if_SetCacheFolder sample_github s m) =
                 if_Processed sample_github m) \<and>
           (\<forall>m w d m' w'. if_Download sample_github m w = Inr (d, m', w') \<longrightarrow>
                 if_Processed sample_github m' = if_Processed sample_github m)"
    unfolding sample_github_def by (rule github_keeps_processed)
  have "\<not> isl (deduplicate sample_github sample_decls sample_cache ''/env'')" by code_simp
  then have h4: "deduplicate sample_github sample_decls sample_cache ''/env'' = Inr sample_dedup"
    unfolding sample_dedup_def
    by (cases "deduplicate sample_github sample_decls sample_cache ''/env''") auto
  have h5: "map fst sample_runs = sent sample_dedup" by (simp add: sample_runs_def comp_def)
  have h6: "\<forall>(m, w)\<in>set sample_runs.
      \<not> isl (downloadModules_body sample_github (sample_sys sample_tags) m w)"
    by code_simp
  have h7: "mset sample_results =
      mset (concat (map (\<lambda>(m, w). worker_results sample_github (sample_sys sample_tags) m w)
              sample_runs))"
    by (simp add: sample_results_def)
  have "\<not> isl (parseResults sample_github sample_results True (\<lambda>p. None :: string option))"
    by code_simp
  then have h8: "parseResults sample_github sample_results True (\<lambda>p. None) = Inr sample_aggregate"
    unfolding sample_aggregate_def
    by (cases "parseResults sample_github sample_results True (\<lambda>p. None :: string option)") auto
  have c1: "map (if_Processed sample_github) (dedup_processed sample_dedup) = [1]" by code_simp
  have c2: "map (if_Processed sample_github) (Processed_calls sample_aggregate) = [0, 2]" by code_simp
  from processed_exactly_once [OF k [THEN conjunct1] k [THEN conjunct2, THEN conjunct1]
      k [THEN conjunct2, THEN conjunct2] h4 h5 h6 h7 h8] c1 c2
  show ?thesis by simp
qed

end
